theory Spec2Isabelle
  imports Main "HOL-Library.Word"
begin

unbundle bit_operations_syntax

section \<open>Values of the Python program\<close>

text \<open>
  A Python \<open>str\<close> is a sequence of code points, a \<open>bytes\<close> object a sequence of
  octets. \<open>len\<close> of a \<open>str\<close> counts code points, \<open>len\<close> of \<open>bytes\<close> counts octets.
\<close>

type_synonym byte = "8 word"
type_synonym bytes = "byte list"
type_synonym str = "nat list"

text \<open>The exceptions that the code of \<open>crypto_utils.py\<close> can raise, as values.\<close>

datatype error =
    UnicodeEncodeError
  | UnicodeDecodeError
  | AsciiValueError
  | BinasciiError
  | NonceEmpty
  | MacCheckFailed

definition byte_of :: "nat \<Rightarrow> byte" where
  "byte_of n = of_nat n"

definition str_of :: "string \<Rightarrow> str" where
  "str_of s = map of_char s"

subsection \<open>\<open>str.encode("utf-8")\<close> and \<open>bytes.decode("utf-8")\<close>\<close>

definition utf8_encode_cp :: "nat \<Rightarrow> error + bytes" where
  "utf8_encode_cp c =
     (if c < 0x80 then Inr [byte_of c]
      else if c < 0x800 then Inr [byte_of (0xC0 + c div 64), byte_of (0x80 + c mod 64)]
      else if 0xD800 \<le> c \<and> c \<le> 0xDFFF then Inl UnicodeEncodeError
      else if c < 0x10000 then
        Inr [byte_of (0xE0 + c div 4096), byte_of (0x80 + c div 64 mod 64),
             byte_of (0x80 + c mod 64)]
      else if c < 0x110000 then
        Inr [byte_of (0xF0 + c div 262144), byte_of (0x80 + c div 4096 mod 64),
             byte_of (0x80 + c div 64 mod 64), byte_of (0x80 + c mod 64)]
      else Inl UnicodeEncodeError)"

fun utf8_encode :: "str \<Rightarrow> error + bytes" where
  "utf8_encode [] = Inr []"
| "utf8_encode (c # cs) =
     (case utf8_encode_cp c of
        Inl e \<Rightarrow> Inl e
      | Inr bs \<Rightarrow> (case utf8_encode cs of Inl e \<Rightarrow> Inl e | Inr rest \<Rightarrow> Inr (bs @ rest)))"

definition is_cont :: "byte \<Rightarrow> bool" where
  "is_cont b = (0x80 \<le> unat b \<and> unat b \<le> 0xBF)"

definition cont_bits :: "byte \<Rightarrow> nat" where
  "cont_bits b = unat b - 0x80"

definition push :: "nat \<Rightarrow> error + str \<Rightarrow> error + str" where
  "push c r = (case r of Inl e \<Rightarrow> Inl e | Inr cs \<Rightarrow> Inr (c # cs))"

text \<open>
  One step of the strict decoder: the next code point and the remaining octets, or
  \<open>None\<close> where Python raises \<open>UnicodeDecodeError\<close> (a stray continuation octet, a
  truncated or overlong sequence, a surrogate, a value beyond U+10FFFF).
\<close>

fun utf8_next :: "bytes \<Rightarrow> (nat \<times> bytes) option" where
  "utf8_next [] = None"
| "utf8_next (b0 # bs) =
     (if unat b0 < 0x80 then Some (unat b0, bs)
      else if 0xC2 \<le> unat b0 \<and> unat b0 \<le> 0xDF then
        (case bs of
           b1 # r \<Rightarrow>
             if is_cont b1 then Some ((unat b0 - 0xC0) * 64 + cont_bits b1, r) else None
         | _ \<Rightarrow> None)
      else if 0xE0 \<le> unat b0 \<and> unat b0 \<le> 0xEF then
        (case bs of
           b1 # b2 # r \<Rightarrow>
             (let c = (unat b0 - 0xE0) * 4096 + cont_bits b1 * 64 + cont_bits b2 in
              if is_cont b1 \<and> is_cont b2 \<and> 0x800 \<le> c \<and> \<not> (0xD800 \<le> c \<and> c \<le> 0xDFFF)
              then Some (c, r) else None)
         | _ \<Rightarrow> None)
      else if 0xF0 \<le> unat b0 \<and> unat b0 \<le> 0xF4 then
        (case bs of
           b1 # b2 # b3 # r \<Rightarrow>
             (let c = (unat b0 - 0xF0) * 262144 + cont_bits b1 * 4096
                        + cont_bits b2 * 64 + cont_bits b3 in
              if is_cont b1 \<and> is_cont b2 \<and> is_cont b3 \<and> 0x10000 \<le> c \<and> c < 0x110000
              then Some (c, r) else None)
         | _ \<Rightarrow> None)
      else None)"

function utf8_decode :: "bytes \<Rightarrow> error + str" where
  "utf8_decode bs =
     (if bs = [] then Inr []
      else case utf8_next bs of
             None \<Rightarrow> Inl UnicodeDecodeError
           | Some (c, r) \<Rightarrow> push c (utf8_decode r))"
  by pat_completeness auto
termination
proof (relation "measure length")
  show "wf (measure length)" by simp
next
  fix bs :: bytes and x2 c r
  assume "bs \<noteq> []" "utf8_next bs = Some x2" "(c, r) = x2"
  then have "length r < length bs"
    by (cases bs) (auto split: if_splits list.splits simp: Let_def)
  then show "(r, bs) \<in> measure length" by simp
qed

declare utf8_decode.simps [simp del]

subsection \<open>\<open>base64.b64encode\<close> and \<open>base64.b64decode\<close>\<close>

text \<open>The alphabet: the character of a sextet, and the sextet of a character.\<close>

definition b64_char :: "nat \<Rightarrow> nat" where
  "b64_char n =
     (if n < 26 then 65 + n else if n < 52 then 71 + n else if n < 62 then n - 4
      else if n = 62 then 43 else 47)"

definition b64_index :: "nat \<Rightarrow> nat option" where
  "b64_index c =
     (if 65 \<le> c \<and> c \<le> 90 then Some (c - 65)
      else if 97 \<le> c \<and> c \<le> 122 then Some (c - 71)
      else if 48 \<le> c \<and> c \<le> 57 then Some (c + 4)
      else if c = 43 then Some 62
      else if c = 47 then Some 63
      else None)"

text \<open>
  \<open>b64encode\<close> returns \<open>bytes\<close>: four characters for every three octets, the last
  group padded with \<open>=\<close> (61).
\<close>

fun b64encode :: "bytes \<Rightarrow> bytes" where
  "b64encode [] = []"
| "b64encode [a] =
     [byte_of (b64_char (unat a div 4)), byte_of (b64_char (unat a mod 4 * 16)),
      byte_of 61, byte_of 61]"
| "b64encode [a, b] =
     [byte_of (b64_char (unat a div 4)),
      byte_of (b64_char (unat a mod 4 * 16 + unat b div 16)),
      byte_of (b64_char (unat b mod 16 * 4)), byte_of 61]"
| "b64encode (a # b # c # r) =
     byte_of (b64_char (unat a div 4))
     # byte_of (b64_char (unat a mod 4 * 16 + unat b div 16))
     # byte_of (b64_char (unat b mod 16 * 4 + unat c div 64))
     # byte_of (b64_char (unat c mod 64))
     # b64encode r"

text \<open>
  \<open>b64decode\<close> without \<open>validate\<close> is \<open>binascii.a2b_base64\<close> in its lenient mode:
  characters outside the alphabet are skipped, a padding character ends the input once
  the current group is complete with it, and input that ends inside a group raises
  \<open>binascii.Error\<close>. The state is the position in the group of four, the bits left
  over from the previous character, the padding characters seen, and the output.
\<close>

fun a2b_base64 :: "bytes \<Rightarrow> nat \<Rightarrow> nat \<Rightarrow> nat \<Rightarrow> bytes \<Rightarrow> error + bytes" where
  "a2b_base64 [] quad_pos leftchar pads out =
     (if quad_pos \<noteq> 0 then Inl BinasciiError else Inr out)"
| "a2b_base64 (ch # rest) quad_pos leftchar pads out =
     (if unat ch = 61 then
        (if 2 \<le> quad_pos then
           (if 4 \<le> quad_pos + (pads + 1) then Inr out
            else a2b_base64 rest quad_pos leftchar (pads + 1) out)
         else a2b_base64 rest quad_pos leftchar pads out)
      else
        (case b64_index (unat ch) of
           None \<Rightarrow> a2b_base64 rest quad_pos leftchar pads out
         | Some v \<Rightarrow>
             if quad_pos = 0 then a2b_base64 rest 1 v 0 out
             else if quad_pos = 1 then
               a2b_base64 rest 2 (v mod 16) 0 (out @ [byte_of ((leftchar * 4 + v div 16) mod 256)])
             else if quad_pos = 2 then
               a2b_base64 rest 3 (v mod 4) 0 (out @ [byte_of ((leftchar * 16 + v div 4) mod 256)])
             else a2b_base64 rest 0 0 0 (out @ [byte_of ((leftchar * 64 + v) mod 256)])))"

text \<open>A \<open>str\<close> argument is first encoded as ASCII, which fails on any other character.\<close>

definition b64decode :: "str \<Rightarrow> error + bytes" where
  "b64decode s =
     (if list_ex (\<lambda>c. 128 \<le> c) s then Inl AsciiValueError
      else a2b_base64 (map byte_of s) 0 0 0 [])"

section \<open>The codec of \<open>crypto_utils.py\<close>\<close>

subsection \<open>What the codec takes from outside the repository\<close>

text \<open>
  Modelled from the spec: \<open>get_aes_key\<close> of \<open>config\<close>, a module of the repository that
  is not among the sources. The spec has the key provider hold one key of exactly 256
  bits for the life of the process, so the key is a parameter of type \<open>256 word\<close>, and
  the check of the key length in \<open>AES.new\<close> always passes.
\<close>

type_synonym aes_key = "256 word"

text \<open>
  AES in Galois/Counter mode is the library's. Its two components are parameters: the
  key stream that the counter mode derives from key and nonce, one octet for each
  position, and the 128-bit authentication tag of key, nonce and ciphertext (the code
  passes no associated data and leaves the tag length at its default of 16 octets).
  Nothing is assumed about either.
\<close>

record gcm_primitive =
  keystream :: "aes_key \<Rightarrow> bytes \<Rightarrow> nat \<Rightarrow> byte"
  mac :: "aes_key \<Rightarrow> bytes \<Rightarrow> bytes \<Rightarrow> 128 word"

text \<open>The object that \<open>AES.new(key, AES.MODE_GCM, nonce=iv)\<close> returns.\<close>

record gcm_cipher =
  cipher_key :: aes_key
  cipher_nonce :: bytes

definition AES_new :: "aes_key \<Rightarrow> bytes \<Rightarrow> error + gcm_cipher" where
  "AES_new key nonce =
     (if nonce = [] then Inl NonceEmpty
      else Inr \<lparr>cipher_key = key, cipher_nonce = nonce\<rparr>)"

definition gctr :: "gcm_primitive \<Rightarrow> gcm_cipher \<Rightarrow> bytes \<Rightarrow> bytes" where
  "gctr A c data =
     map (\<lambda>(i, b). b XOR keystream A (cipher_key c) (cipher_nonce c) i)
         (zip [0..<length data] data)"

definition tag_bytes :: "128 word \<Rightarrow> bytes" where
  "tag_bytes t = map (\<lambda>i. ucast (drop_bit (8 * (15 - i)) t)) [0..<16]"

definition digest :: "gcm_primitive \<Rightarrow> gcm_cipher \<Rightarrow> bytes \<Rightarrow> bytes" where
  "digest A c ciphertext = tag_bytes (mac A (cipher_key c) (cipher_nonce c) ciphertext)"

definition encrypt_and_digest :: "gcm_primitive \<Rightarrow> gcm_cipher \<Rightarrow> bytes \<Rightarrow> bytes \<times> bytes" where
  "encrypt_and_digest A c data =
     (let ciphertext = gctr A c data in (ciphertext, digest A c ciphertext))"

text \<open>
  \<open>decrypt_and_verify\<close> compares the tag it received with the tag it computes and raises
  \<open>ValueError("MAC check failed")\<close> when they differ, whatever the length of either.
\<close>

definition decrypt_and_verify ::
  "gcm_primitive \<Rightarrow> gcm_cipher \<Rightarrow> bytes \<Rightarrow> bytes \<Rightarrow> error + bytes" where
  "decrypt_and_verify A c ciphertext received_tag =
     (let data = gctr A c ciphertext in
      if digest A c ciphertext \<noteq> received_tag then Inl MacCheckFailed else Inr data)"

text \<open>
  \<open>get_random_bytes\<close> reads the system's random source. The source is a parameter: the
  stream of octets still to be drawn; a call takes the first \<open>n\<close> and leaves the rest.
\<close>

type_synonym rng = "nat \<Rightarrow> byte"

definition get_random_bytes :: "nat \<Rightarrow> rng \<Rightarrow> bytes \<times> rng" where
  "get_random_bytes n r = (map r [0..<n], \<lambda>i. r (i + n))"

subsection \<open>\<open>encrypt_value\<close> and \<open>decrypt_value\<close>\<close>

definition encrypt_value ::
  "gcm_primitive \<Rightarrow> aes_key \<Rightarrow> str \<Rightarrow> rng \<Rightarrow> (error + str) \<times> rng" where
  "encrypt_value A key plaintext r =
     (case utf8_encode plaintext of
        Inl e \<Rightarrow> (Inl e, r)
      | Inr data \<Rightarrow>
          (case get_random_bytes 12 r of
             (iv, r') \<Rightarrow>
               (case AES_new key iv of
                  Inl e \<Rightarrow> (Inl e, r')
                | Inr cipher \<Rightarrow>
                    (case encrypt_and_digest A cipher data of
                       (ciphertext, tag) \<Rightarrow>
                         (utf8_decode (b64encode (iv @ tag @ ciphertext)), r')))))"

text \<open>The slices \<open>raw[:12]\<close>, \<open>raw[12:28]\<close> and \<open>raw[28:]\<close> never raise, also on short input.\<close>

definition decrypt_value :: "gcm_primitive \<Rightarrow> aes_key \<Rightarrow> str \<Rightarrow> error + str" where
  "decrypt_value A key enc =
     (case b64decode enc of
        Inl e \<Rightarrow> Inl e
      | Inr raw \<Rightarrow>
          (let iv = take 12 raw;
               tag = take 16 (drop 12 raw);
               ciphertext = drop 28 raw
           in case AES_new key iv of
                Inl e \<Rightarrow> Inl e
              | Inr cipher \<Rightarrow>
                  (case decrypt_and_verify A cipher ciphertext tag of
                     Inl e \<Rightarrow> Inl e
                   | Inr data \<Rightarrow> utf8_decode data)))"

text \<open>The octets that \<open>encrypt_value\<close> encodes: \<open>iv + tag + ciphertext\<close>.\<close>

definition envelope :: "gcm_primitive \<Rightarrow> aes_key \<Rightarrow> bytes \<Rightarrow> bytes \<Rightarrow> bytes" where
  "envelope A key iv data =
     (let c = \<lparr>cipher_key = key, cipher_nonce = iv\<rparr>
      in iv @ digest A c (gctr A c data) @ gctr A c data)"


text \<open>
  The strings that \<open>str.encode("utf-8")\<close> accepts: code points up to U+10FFFF that are
  not surrogates.
\<close>

definition scalar_values :: "str \<Rightarrow> bool" where
  "scalar_values p = list_all (\<lambda>c. c < 0x110000 \<and> \<not> (0xD800 \<le> c \<and> c \<le> 0xDFFF)) p"

subsection \<open>Concrete parameters, for evaluating the codec\<close>

definition demo_gcm :: gcm_primitive where
  "demo_gcm = \<lparr>keystream = (\<lambda>k n i. byte_of (i + length n)), mac = (\<lambda>k n c. of_nat (length c))\<rparr>"

definition const_rng :: "byte \<Rightarrow> rng" where
  "const_rng b i = b"

definition count_rng :: rng where
  "count_rng i = of_nat i"

section \<open>The database as the code sees it\<close>

text \<open>
  A value of a column (\<open>Dec\<close> is a \<open>DECIMAL(10, 2)\<close>, in hundredths), a row with the key
  that \<open>AUTO_INCREMENT\<close> gave it and the values of the columns that the statement names,
  in its order, and the tables by name.
\<close>

datatype cell = Null | Num int | Dec int | Text str | Blob bytes

type_synonym row = "nat \<times> cell list"
type_synonym tables = "string \<Rightarrow> row list"

text \<open>
  What the code of a request can raise: an exception of the codec, one of the database
  driver, which carries the message of the server, and the \<open>TypeError\<close> and \<open>IndexError\<close>
  of Python.
\<close>

datatype exn = CodecError error | DatabaseError str | TypeError | IndexError

subsection \<open>The audit triggers of \<open>create_database_and_tables\<close>\<close>

text \<open>
  \<open>CONCAT\<close> of MySQL returns \<open>NULL\<close> as soon as one argument is \<open>NULL\<close>, and otherwise the
  arguments as text, one after the other. A number is written in decimal, a
  \<open>DECIMAL(10, 2)\<close> with its two decimals.
\<close>

fun digits :: "nat \<Rightarrow> str" where
  "digits n = (if n < 10 then [48 + n] else digits (n div 10) @ [48 + n mod 10])"

declare digits.simps [simp del]

definition text_of_int :: "int \<Rightarrow> str" where
  "text_of_int i = (if i < 0 then 45 # digits (nat (- i)) else digits (nat i))"

definition text_of_dec :: "int \<Rightarrow> str" where
  "text_of_dec h =
     (if h < 0 then [45] else []) @ digits (nat \<bar>h\<bar> div 100) @ [46]
       @ digits (nat \<bar>h\<bar> mod 100 div 10) @ digits (nat \<bar>h\<bar> mod 10)"

fun text_of :: "cell \<Rightarrow> str" where
  "text_of Null = []"
| "text_of (Num i) = text_of_int i"
| "text_of (Dec h) = text_of_dec h"
| "text_of (Text s) = s"
| "text_of (Blob b) = map unat b"

definition CONCAT :: "cell list \<Rightarrow> cell" where
  "CONCAT args = (if Null \<in> set args then Null else Text (concat (map text_of args)))"

text \<open>The value of a column of \<open>OLD\<close> or \<open>NEW\<close>; a column that the row has not is \<open>NULL\<close>.\<close>

definition col :: "cell list \<Rightarrow> nat \<Rightarrow> cell" where
  "col r i = (if i < length r then r ! i else Null)"

definition lit :: "string \<Rightarrow> cell" where
  "lit s = Text (str_of s)"

text \<open>
  The row that a trigger inserts into \<open>Audit_Log\<close>: \<open>table_name\<close>, \<open>record_id\<close>, \<open>action\<close>,
  \<open>changed_by\<close>, \<open>old_data\<close>, \<open>new_data\<close>. A row of a table is its key and then the columns
  in the order of the \<open>INSERT\<close> statement of the source: \<open>Patient\<close> key, \<open>first_name\<close>,
  \<open>last_name\<close>, \<open>dob\<close>, \<open>gender\<close>, ...; \<open>Patient_Sensitive\<close> key, \<open>patient_id\<close>, \<open>mrn\<close>,
  \<open>home_address\<close>, \<open>insurance_policy\<close>, \<open>card_last4\<close>; \<open>Billing\<close> key, \<open>patient_id\<close>,
  \<open>total_amount\<close>, \<open>paid_amount\<close>, \<open>status\<close>, \<open>payment_due_date\<close>; \<open>Payment_Methods\<close> key,
  \<open>patient_id\<close>, \<open>type\<close>, \<open>last4\<close>, \<open>data_enc\<close>, \<open>is_default\<close>; \<open>Payment_Transactions\<close> key,
  \<open>billing_id\<close>, \<open>patient_id\<close>, \<open>payment_method_id\<close>, \<open>amount\<close>, \<open>status\<close>, \<open>note\<close>.
\<close>

definition trg_patient_before_update :: "cell list \<Rightarrow> cell list \<Rightarrow> cell list" where
  "trg_patient_before_update OLD NEW =
     [lit ''Patient'', col OLD 0, lit ''UPDATE'', lit ''SYSTEM'',
      CONCAT [lit ''{\"first_name\":\"'', col OLD 1, lit ''\",\"last_name\":\"'', col OLD 2,
              lit ''\",\"dob\":\"'', col OLD 3, lit ''\",\"gender\":\"'', col OLD 4, lit ''\"}''],
      CONCAT [lit ''{\"first_name\":\"'', col NEW 1, lit ''\",\"last_name\":\"'', col NEW 2,
              lit ''\",\"dob\":\"'', col NEW 3, lit ''\",\"gender\":\"'', col NEW 4, lit ''\"}'']]"

definition trg_patient_sensitive_before_update :: "cell list \<Rightarrow> cell list \<Rightarrow> cell list" where
  "trg_patient_sensitive_before_update OLD NEW =
     [lit ''Patient_Sensitive'', col OLD 0, lit ''UPDATE'', lit ''SYSTEM'',
      CONCAT [lit ''{\"card_last4\":\"'', col OLD 5, lit ''\"}''],
      CONCAT [lit ''{\"card_last4\":\"'', col NEW 5, lit ''\"}'']]"

definition trg_billing_before_update :: "cell list \<Rightarrow> cell list \<Rightarrow> cell list" where
  "trg_billing_before_update OLD NEW =
     [lit ''Billing'', col OLD 0, lit ''UPDATE'', lit ''SYSTEM'',
      CONCAT [lit ''{\"total_amount\":'', col OLD 2, lit '',\"paid_amount\":'', col OLD 3,
              lit '',\"status\":\"'', col OLD 4, lit ''\"}''],
      CONCAT [lit ''{\"total_amount\":'', col NEW 2, lit '',\"paid_amount\":'', col NEW 3,
              lit '',\"status\":\"'', col NEW 4, lit ''\"}'']]"

definition trg_paymethod_before_update :: "cell list \<Rightarrow> cell list \<Rightarrow> cell list" where
  "trg_paymethod_before_update OLD NEW =
     [lit ''Payment_Methods'', col OLD 0, lit ''UPDATE'', lit ''SYSTEM'',
      CONCAT [lit ''{\"type\":\"'', col OLD 2, lit ''\",\"last4\":\"'', col OLD 3,
              lit ''\",\"is_default\":'', col OLD 5, lit ''}''],
      CONCAT [lit ''{\"type\":\"'', col NEW 2, lit ''\",\"last4\":\"'', col NEW 3,
              lit ''\",\"is_default\":'', col NEW 5, lit ''}'']]"

definition trg_payment_tx_after_insert :: "cell list \<Rightarrow> cell list" where
  "trg_payment_tx_after_insert NEW =
     [lit ''Payment_Transactions'', col NEW 0, lit ''INSERT'', lit ''SYSTEM'', Null,
      CONCAT [lit ''{\"billing_id\":'', col NEW 1, lit '',\"patient_id\":'', col NEW 2,
              lit '',\"amount\":'', col NEW 4, lit '',\"status\":\"'', col NEW 5, lit ''\"}'']]"

subsection \<open>Connections and statements\<close>

text \<open>
  A connection has the tables as every other reader sees them and the tables as its own
  transaction sees them; \<open>commit\<close> publishes the second. The counters of \<open>AUTO_INCREMENT\<close>
  are the server's. Whether a call to the driver raises is not the code's to decide: the
  answers still to come are a parameter, \<open>None\<close> for a call that goes through and a
  message for one that raises; past the end of the list every call goes through.
\<close>

record connection =
  committed :: tables
  working :: tables
  counters :: "string \<Rightarrow> nat"
  faults :: "str option list"

record world =
  rand :: rng
  conn :: connection

type_synonym 'a io = "world \<Rightarrow> (exn + 'a) \<times> world"

definition and_then :: "'a io \<Rightarrow> ('a \<Rightarrow> 'b io) \<Rightarrow> 'b io" where
  "and_then m f w = (case m w of (Inl e, w') \<Rightarrow> (Inl e, w') | (Inr a, w') \<Rightarrow> f a w')"

definition return :: "'a \<Rightarrow> 'a io" where
  "return a w = (Inr a, w)"

definition raise :: "exn \<Rightarrow> 'a io" where
  "raise e w = (Inl e, w)"

definition server_call :: "unit io" where
  "server_call w =
     (case faults (conn w) of
        [] \<Rightarrow> (Inr (), w)
      | None # fs \<Rightarrow> (Inr (), w\<lparr>conn := (conn w)\<lparr>faults := fs\<rparr>\<rparr>)
      | Some m # fs \<Rightarrow> (Inl (DatabaseError m), w\<lparr>conn := (conn w)\<lparr>faults := fs\<rparr>\<rparr>))"

text \<open>
  Modelled from the spec: \<open>get_db_conn\<close> of \<open>config\<close>, which is not among the sources. The
  spec has the writes of one unit reach other readers together, at commit, so the
  connection is one whose statements change its own view until \<open>commit\<close>.
\<close>

definition get_db_conn :: "unit io" where
  "get_db_conn =
     and_then server_call
       (\<lambda>_ w. (Inr (), w\<lparr>conn := (conn w)\<lparr>working := committed (conn w)\<rparr>\<rparr>))"

definition cursor :: "unit io" where
  "cursor = server_call"

text \<open>A trigger writes its row into \<open>Audit_Log\<close> in the transaction of the statement.\<close>

definition audit :: "cell list \<Rightarrow> connection \<Rightarrow> connection" where
  "audit vs c =
     (let i = Suc (counters c ''Audit_Log'')
      in c\<lparr>working := (working c)(''Audit_Log'' := working c ''Audit_Log'' @ [(i, vs)]),
            counters := (counters c)(''Audit_Log'' := i)\<rparr>)"

definition after_insert :: "string \<Rightarrow> cell list \<Rightarrow> connection \<Rightarrow> connection" where
  "after_insert t NEW c =
     (if t = ''Payment_Transactions'' then audit (trg_payment_tx_after_insert NEW) c else c)"

definition before_update :: "string \<Rightarrow> cell list \<Rightarrow> cell list \<Rightarrow> connection \<Rightarrow> connection" where
  "before_update t OLD NEW c =
     (if t = ''Patient'' then audit (trg_patient_before_update OLD NEW) c
      else if t = ''Patient_Sensitive'' then audit (trg_patient_sensitive_before_update OLD NEW) c
      else if t = ''Billing'' then audit (trg_billing_before_update OLD NEW) c
      else if t = ''Payment_Methods'' then audit (trg_paymethod_before_update OLD NEW) c
      else c)"

text \<open>\<open>cur.execute\<close> of an \<open>INSERT\<close>; the result is \<open>cur.lastrowid\<close>.\<close>

definition execute_insert :: "string \<Rightarrow> cell list \<Rightarrow> nat io" where
  "execute_insert t vs =
     and_then server_call
       (\<lambda>_ w. let c = conn w; i = Suc (counters c t)
              in (Inr i,
                  w\<lparr>conn := after_insert t (Num (int i) # vs)
                     (c\<lparr>working := (working c)(t := working c t @ [(i, vs)]),
                        counters := (counters c)(t := i)\<rparr>)\<rparr>))"

text \<open>
  An \<open>UPDATE\<close> of the row with key \<open>k\<close> that sets the column at each listed position of the
  row to the value given with it. The source has the triggers and no such statement of
  its own; any client of the database can send one.
\<close>

definition set_cols :: "(nat \<times> cell) list \<Rightarrow> cell list \<Rightarrow> cell list" where
  "set_cols sets r = fold (\<lambda>(i, v) r. if i < length r then r[i := v] else r) sets r"

fun update_rows :: "string \<Rightarrow> nat \<Rightarrow> (nat \<times> cell) list \<Rightarrow> row list \<Rightarrow> connection \<Rightarrow> row list \<times> connection" where
  "update_rows t k sets [] c = ([], c)"
| "update_rows t k sets ((i, vs) # rows) c =
     (if i = k then
        (let OLD = Num (int i) # vs; NEW = set_cols sets OLD; c' = before_update t OLD NEW c
         in case update_rows t k sets rows c' of
              (rows', c'') \<Rightarrow> ((i, tl NEW) # rows', c''))
      else (case update_rows t k sets rows c of (rows', c') \<Rightarrow> ((i, vs) # rows', c')))"

definition execute_update :: "string \<Rightarrow> nat \<Rightarrow> (nat \<times> cell) list \<Rightarrow> unit io" where
  "execute_update t k sets =
     and_then server_call
       (\<lambda>_ w. case update_rows t k sets (working (conn w) t) (conn w) of
                (rows', c') \<Rightarrow> (Inr (), w\<lparr>conn := c'\<lparr>working := (working c')(t := rows')\<rparr>\<rparr>))"

text \<open>
  \<open>cur.execute\<close> of \<open>SELECT * FROM t WHERE\<close> key \<open>= k\<close> and \<open>cur.fetchone()\<close>: the first row
  with that key in the view of the connection, the key before the other columns. The
  server returns the text stored in a \<open>BLOB\<close> column as \<open>bytes\<close>; the \<open>BLOB\<close> columns of a
  table are given by their positions in the row.
\<close>

definition blob_positions :: "string \<Rightarrow> nat list" where
  "blob_positions t =
     (if t = ''Patient'' then [5, 6, 7, 8]
      else if t = ''Staff'' then [4, 5]
      else if t = ''Medical_Record'' then [3, 4]
      else if t = ''Payment_Methods'' then [4]
      else if t = ''Patient_Sensitive'' then [2, 3, 4]
      else [])"

fun as_stored :: "bool \<Rightarrow> cell \<Rightarrow> cell" where
  "as_stored True (Text s) = (case utf8_encode s of Inr b \<Rightarrow> Blob b | Inl e \<Rightarrow> Text s)"
| "as_stored blob v = v"

definition fetched :: "string \<Rightarrow> row \<Rightarrow> cell list" where
  "fetched t r =
     map (\<lambda>(i, v). as_stored (i \<in> set (blob_positions t)) v)
         (zip [0..<Suc (length (snd r))] (Num (int (fst r)) # snd r))"

definition execute_select :: "string \<Rightarrow> int \<Rightarrow> cell list option io" where
  "execute_select t k =
     and_then server_call
       (\<lambda>_ w. (Inr (map_option (fetched t) (find (\<lambda>r. int (fst r) = k) (working (conn w) t))), w))"

definition commit :: "unit io" where
  "commit =
     and_then server_call
       (\<lambda>_ w. (Inr (), w\<lparr>conn := (conn w)\<lparr>committed := working (conn w)\<rparr>\<rparr>))"

definition rollback :: "unit io" where
  "rollback =
     and_then server_call
       (\<lambda>_ w. (Inr (), w\<lparr>conn := (conn w)\<lparr>working := committed (conn w)\<rparr>\<rparr>))"

definition cursor_close :: "unit io" where
  "cursor_close = server_call"

definition connection_close :: "unit io" where
  "connection_close =
     and_then server_call
       (\<lambda>_ w. (Inr (), w\<lparr>conn := (conn w)\<lparr>working := committed (conn w)\<rparr>\<rparr>))"

text \<open>\<open>encrypt_value\<close> in a request: it draws from the random source of the process.\<close>

definition encrypt :: "gcm_primitive \<Rightarrow> aes_key \<Rightarrow> str \<Rightarrow> str io" where
  "encrypt A key plaintext w =
     (case encrypt_value A key plaintext (rand w) of
        (Inl e, r') \<Rightarrow> (Inl (CodecError e), w\<lparr>rand := r'\<rparr>)
      | (Inr enc, r') \<Rightarrow> (Inr enc, w\<lparr>rand := r'\<rparr>))"

section \<open>The intake form of \<open>app.py\<close>\<close>

text \<open>\<open>str.strip()\<close> removes the characters of \<open>str.isspace\<close> from both ends.\<close>

definition isspace :: "nat \<Rightarrow> bool" where
  "isspace c \<longleftrightarrow>
     (0x09 \<le> c \<and> c \<le> 0x0D) \<or> (0x1C \<le> c \<and> c \<le> 0x20) \<or> c = 0x85 \<or> c = 0xA0 \<or> c = 0x1680
     \<or> (0x2000 \<le> c \<and> c \<le> 0x200A) \<or> c = 0x2028 \<or> c = 0x2029 \<or> c = 0x202F
     \<or> c = 0x205F \<or> c = 0x3000"

definition strip :: "str \<Rightarrow> str" where
  "strip s = rev (dropWhile isspace (rev (dropWhile isspace s)))"

datatype http_method = GET | HEAD | POST

record request =
  request_method :: http_method
  form :: "string \<rightharpoonup> str"

definition form_get :: "request \<Rightarrow> string \<Rightarrow> str \<Rightarrow> str" where
  "form_get req name dflt = (case form req name of None \<Rightarrow> dflt | Some v \<Rightarrow> v)"

text \<open>
  What the view returns: a body with a status, a redirect, or a rendered template. The
  text of an exception in an f-string is \<open>str(e)\<close>; for the exceptions of the codec it is
  Python's and a parameter here, for those of the driver it is the message.
\<close>

datatype response = Response str nat | Redirect string | Template string

fun exn_str :: "(error \<Rightarrow> str) \<Rightarrow> exn \<Rightarrow> str" where
  "exn_str t (CodecError e) = t e"
| "exn_str t (DatabaseError m) = m"

text \<open>
  The statements of the \<open>try\<close> block of \<open>patient_form\<close> after the validation, from
  \<open>get_db_conn()\<close> to \<open>conn.close()\<close>. The arguments of an \<open>execute\<close> are evaluated before
  the call.
\<close>

definition store_intake ::
  "gcm_primitive \<Rightarrow> aes_key \<Rightarrow> str \<Rightarrow> str \<Rightarrow> str \<Rightarrow> str \<Rightarrow> str \<Rightarrow> str \<Rightarrow> str \<Rightarrow> str \<Rightarrow> str \<Rightarrow> str
     \<Rightarrow> unit io" where
  "store_intake A key full_name dob email phone address mrn diagnosis insurance card_number amount =
     and_then get_db_conn (\<lambda>_.
     and_then cursor (\<lambda>_.
     and_then (execute_insert ''patients''
                 [Text full_name, Text dob, Text email, Text phone, Text address]) (\<lambda>patient_id.
     and_then (encrypt A key mrn) (\<lambda>mrn_enc.
     and_then (encrypt A key diagnosis) (\<lambda>diagnosis_enc.
     and_then (execute_insert ''medical_records''
                 [Num (int patient_id), Text mrn_enc, Text diagnosis_enc]) (\<lambda>_.
     and_then (encrypt A key insurance) (\<lambda>insurance_policy_enc.
     and_then (execute_insert ''insurance''
                 [Num (int patient_id), Text insurance_policy_enc, Text (str_of ''Unknown'')]) (\<lambda>_.
     and_then (execute_insert ''billing''
                 [Num (int patient_id), Text amount, Text (str_of ''PENDING'')]) (\<lambda>billing_id.
     and_then (encrypt A key card_number) (\<lambda>card_number_enc.
     and_then (execute_insert ''payments''
                 [Num (int billing_id), Text card_number_enc]) (\<lambda>_.
     and_then commit (\<lambda>_.
     and_then cursor_close (\<lambda>_.
     connection_close)))))))))))))"

definition patient_form ::
  "gcm_primitive \<Rightarrow> aes_key \<Rightarrow> (error \<Rightarrow> str) \<Rightarrow> request \<Rightarrow> world \<Rightarrow> response \<times> world" where
  "patient_form A key t req w =
     (if request_method req = POST then
        (let full_name = strip (form_get req ''full_name'' []);
             dob = strip (form_get req ''dob'' []);
             email = strip (form_get req ''email'' []);
             phone = strip (form_get req ''phone'' []);
             address = strip (form_get req ''address'' []);
             mrn = strip (form_get req ''mrn'' []);
             diagnosis = strip (form_get req ''diagnosis'' []);
             insurance = strip (form_get req ''insurance'' []);
             card_number = strip (form_get req ''card'' []);
             amount = strip (form_get req ''amount'' [])
         in if length full_name < 2 \<or> 0x40 \<notin> set email \<or> length mrn < 3 \<or> length card_number < 4
            then (Response (str_of ''Invalid input'') 400, w)
            else (case store_intake A key full_name dob email phone address mrn diagnosis
                         insurance card_number amount w of
                    (Inr _, w') \<Rightarrow> (Redirect ''/success'', w')
                  | (Inl e, w') \<Rightarrow>
                      (Response (str_of ''Error while saving to DB: '' @ exn_str t e) 500, w')))
      else (Template ''patient_form.html'', w))"

subsection \<open>Concrete parameters, for evaluating the form\<close>

definition no_text :: "error \<Rightarrow> str" where
  "no_text e = str_of ''surrogates not allowed''"

definition empty_connection :: "str option list \<Rightarrow> connection" where
  "empty_connection fs = \<lparr>committed = (\<lambda>t. []), working = (\<lambda>t. []), counters = (\<lambda>t. 0), faults = fs\<rparr>"

definition demo_world :: "str option list \<Rightarrow> world" where
  "demo_world fs = \<lparr>rand = const_rng 7, conn = empty_connection fs\<rparr>"

definition post :: "(string \<times> string) list \<Rightarrow> request" where
  "post kvs = \<lparr>request_method = POST, form = map_of (map (\<lambda>(k, v). (k, str_of v)) kvs)\<rparr>"


section \<open>The repository of \<open>hospital_db_setup.py\<close>\<close>

text \<open>\<open>plain_text or ""\<close> of a string is the string.\<close>

definition encrypt_data :: "gcm_primitive \<Rightarrow> aes_key \<Rightarrow> str \<Rightarrow> str io" where
  "encrypt_data A key plain_text = encrypt A key (if plain_text = [] then [] else plain_text)"

text \<open>
  \<open>decrypt_data\<close> gets what the driver returned for the column: \<open>None\<close>, \<open>bytes\<close> or a
  string, and for no column of the repository a number, on which \<open>b64decode\<close> raises
  \<open>TypeError\<close>.
\<close>

definition decrypt_data :: "gcm_primitive \<Rightarrow> aes_key \<Rightarrow> cell \<Rightarrow> str io" where
  "decrypt_data A key encrypted_data =
     (if encrypted_data = Null \<or> encrypted_data = Blob [] \<or> encrypted_data = Text [] then return []
      else case encrypted_data of
             Blob b \<Rightarrow>
               (case utf8_decode b of
                  Inl e \<Rightarrow> raise (CodecError e)
                | Inr s \<Rightarrow>
                    (case decrypt_value A key s of
                       Inl e \<Rightarrow> raise (CodecError e) | Inr p \<Rightarrow> return p))
           | Text s \<Rightarrow>
               (case decrypt_value A key s of
                  Inl e \<Rightarrow> raise (CodecError e) | Inr p \<Rightarrow> return p)
           | _ \<Rightarrow> raise TypeError)"

text \<open>
  \<open>patient_data\<close> is the dictionary that the callers build: strings under the eight text
  keys, and under \<open>primary_doctor_id\<close> an integer or \<open>None\<close>, on which \<open>int\<close> changes
  nothing.
\<close>

record patient_data =
  first_name :: str
  last_name :: str
  dob :: str
  gender :: str
  phone_number :: str
  email :: str
  ssn :: str
  state_id :: str
  primary_doctor_id :: "int option"

definition insert_patient_data :: "gcm_primitive \<Rightarrow> aes_key \<Rightarrow> patient_data \<Rightarrow> nat io" where
  "insert_patient_data A key patient_data =
     and_then cursor (\<lambda>_.
     and_then (encrypt_data A key (phone_number patient_data)) (\<lambda>encrypted_phone.
     and_then (encrypt_data A key (email patient_data)) (\<lambda>encrypted_email.
     and_then (encrypt_data A key (ssn patient_data)) (\<lambda>encrypted_ssn.
     and_then (encrypt_data A key (state_id patient_data)) (\<lambda>encrypted_state_id.
     and_then (execute_insert ''Patient''
                 [Text (first_name patient_data), Text (last_name patient_data),
                  Text (dob patient_data), Text (gender patient_data),
                  Text encrypted_phone, Text encrypted_email, Text encrypted_ssn,
                  Text encrypted_state_id,
                  (case primary_doctor_id patient_data of None \<Rightarrow> Null | Some n \<Rightarrow> Num n)])
       (\<lambda>patient_id.
     and_then commit (\<lambda>_.
     and_then cursor_close (\<lambda>_.
     return patient_id))))))))"

text \<open>\<open>result[i]\<close> raises \<open>IndexError\<close> past the end of the row.\<close>

definition item :: "cell list \<Rightarrow> nat \<Rightarrow> cell io" where
  "item result i = (if i < length result then return (result ! i) else raise IndexError)"

definition get_patient_data ::
  "gcm_primitive \<Rightarrow> aes_key \<Rightarrow> int \<Rightarrow> (string \<times> cell) list option io" where
  "get_patient_data A key patient_id =
     and_then cursor (\<lambda>_.
     and_then (execute_select ''Patient'' patient_id) (\<lambda>result.
       case result of
         None \<Rightarrow> return None
       | Some result \<Rightarrow>
           and_then (item result 5) (\<lambda>r5.
           and_then (decrypt_data A key r5) (\<lambda>decrypted_phone.
           and_then (item result 6) (\<lambda>r6.
           and_then (decrypt_data A key r6) (\<lambda>decrypted_email.
           and_then (item result 7) (\<lambda>r7.
           and_then (decrypt_data A key r7) (\<lambda>decrypted_ssn.
           and_then (item result 8) (\<lambda>r8.
           and_then (decrypt_data A key r8) (\<lambda>decrypted_state_id.
           and_then (item result 0) (\<lambda>r0.
           and_then (item result 1) (\<lambda>r1.
           and_then (item result 2) (\<lambda>r2.
           and_then (item result 3) (\<lambda>r3.
           and_then (item result 4) (\<lambda>r4.
           and_then (item result 9) (\<lambda>r9.
           return (Some [(''patient_id'', r0), (''first_name'', r1), (''last_name'', r2),
                         (''dob'', r3), (''gender'', r4),
                         (''phone_number'', Text decrypted_phone),
                         (''email'', Text decrypted_email), (''ssn'', Text decrypted_ssn),
                         (''state_id'', Text decrypted_state_id),
                         (''primary_doctor_id'', r9)])))))))))))))))))"

text \<open>
  The values that \<open>insert_patient_data\<close> sends for a patient whose four sensitive fields
  have the given UTF-8 encodings, when the random source is \<open>r\<close>: each envelope takes
  the next 12 octets of the source.
\<close>

definition stored_patient :: "gcm_primitive \<Rightarrow> aes_key \<Rightarrow> rng \<Rightarrow> patient_data \<Rightarrow> bytes \<Rightarrow> bytes \<Rightarrow> bytes \<Rightarrow> bytes \<Rightarrow> cell list" where
  "stored_patient A key r pd d1 d2 d3 d4 =
     [Text (first_name pd), Text (last_name pd), Text (dob pd), Text (gender pd),
      Text (map unat (b64encode (envelope A key (map r [0..<12]) d1))),
      Text (map unat (b64encode (envelope A key (map (\<lambda>i. r (i + 12)) [0..<12]) d2))),
      Text (map unat (b64encode (envelope A key (map (\<lambda>i. r (i + 12 + 12)) [0..<12]) d3))),
      Text (map unat (b64encode (envelope A key (map (\<lambda>i. r (i + 12 + 12 + 12)) [0..<12]) d4))),
      (case primary_doctor_id pd of None \<Rightarrow> Null | Some n \<Rightarrow> Num n)]"

subsection \<open>Concrete parameters, for evaluating the repository\<close>

definition demo_patient :: patient_data where
  "demo_patient =
     \<lparr>first_name = str_of ''Ann'', last_name = str_of ''Lee'', dob = str_of ''1992-08-10'',
      gender = str_of ''F'', phone_number = str_of ''555-0101'', email = str_of ''a@b.com'',
      ssn = str_of ''123-45-6789'', state_id = str_of ''TX123'', primary_doctor_id = None\<rparr>"

section \<open>Lemmas on UTF-8\<close>

lemma unat_byte_of: "n < 256 \<Longrightarrow> unat (byte_of n) = n"
  by (simp add: byte_of_def unat_of_nat)

lemma mod_64_le: "(x::nat) mod 64 \<le> 63"
proof -
  have "x mod 64 < 64" by simp
  then show ?thesis by linarith
qed

lemma lin3: "q * 64 + r = d \<Longrightarrow> d * 64 + s = c \<Longrightarrow> q * 4096 + r * 64 + s = (c::nat)"
  by linarith

lemma lin4:
  "p * 64 + q = e \<Longrightarrow> e * 64 + r = d \<Longrightarrow> d * 64 + s = c
   \<Longrightarrow> p * 262144 + q * 4096 + r * 64 + s = (c::nat)"
  by linarith

lemma div_4096: "(c::nat) div 4096 = c div 64 div 64"
proof -
  have "c div (64 * 64) = c div 64 div 64" by (rule div_mult2_eq)
  then show ?thesis by simp
qed

lemma div_262144: "(c::nat) div 262144 = c div 64 div 64 div 64"
proof -
  have "c div (4096 * 64) = c div 4096 div 64" by (rule div_mult2_eq)
  then show ?thesis by (simp add: div_4096)
qed

lemma sextets3: "(c::nat) div 4096 * 4096 + c div 64 mod 64 * 64 + c mod 64 = c"
  unfolding div_4096
  by (rule lin3 [of "c div 64 div 64" "c div 64 mod 64" "c div 64" "c mod 64" c]) simp_all

lemma sextets4:
  "(c::nat) div 262144 * 262144 + c div 4096 mod 64 * 4096 + c div 64 mod 64 * 64 + c mod 64 = c"
  unfolding div_262144 div_4096
  by (rule lin4 [of "c div 64 div 64 div 64" "c div 64 div 64 mod 64" "c div 64 div 64"
         "c div 64 mod 64" "c div 64" "c mod 64" c]) simp_all

lemma utf8_next_encode_cp:
  assumes "utf8_encode_cp c = Inr bs"
  shows "utf8_next (bs @ rest) = Some (c, rest)"
proof -
  consider (a) "c < 0x80" | (b) "0x80 \<le> c" "c < 0x800"
    | (c) "0x800 \<le> c" "c < 0x10000" "\<not> (0xD800 \<le> c \<and> c \<le> 0xDFFF)"
    | (d) "0x10000 \<le> c" "c < 0x110000"
    using assms by (auto simp: utf8_encode_cp_def split: if_splits)
  then show ?thesis
  proof cases
    case a
    then show ?thesis using assms by (auto simp: utf8_encode_cp_def unat_byte_of)
  next
    case b
    have 1: "unat (byte_of (0xC0 + c div 64)) = 0xC0 + c div 64"
      using b by (intro unat_byte_of) simp
    have 2: "unat (byte_of (0x80 + c mod 64)) = 0x80 + c mod 64"
      by (intro unat_byte_of) simp
    have bs: "bs = [byte_of (0xC0 + c div 64), byte_of (0x80 + c mod 64)]"
      using assms b by (simp add: utf8_encode_cp_def)
    have r: "2 \<le> c div 64" "c div 64 \<le> 31" using b by simp_all
    show ?thesis unfolding bs using r
      by (simp add: 1 2 is_cont_def cont_bits_def mod_64_le)
  next
    case c
    have 1: "unat (byte_of (0xE0 + c div 4096)) = 0xE0 + c div 4096"
      using c by (intro unat_byte_of) simp
    have 2: "unat (byte_of (0x80 + c div 64 mod 64)) = 0x80 + c div 64 mod 64"
      by (intro unat_byte_of) simp
    have 3: "unat (byte_of (0x80 + c mod 64)) = 0x80 + c mod 64"
      by (intro unat_byte_of) simp
    have bs: "bs = [byte_of (0xE0 + c div 4096), byte_of (0x80 + c div 64 mod 64),
                    byte_of (0x80 + c mod 64)]"
      using assms c by (simp add: utf8_encode_cp_def)
    have r: "c div 4096 \<le> 15" using c by simp
    show ?thesis unfolding bs using r c
      by (simp add: 1 2 3 is_cont_def cont_bits_def sextets3 mod_64_le)
  next
    case d
    have 1: "unat (byte_of (0xF0 + c div 262144)) = 0xF0 + c div 262144"
      using d by (intro unat_byte_of) simp
    have 2: "unat (byte_of (0x80 + c div 4096 mod 64)) = 0x80 + c div 4096 mod 64"
      by (intro unat_byte_of) simp
    have 3: "unat (byte_of (0x80 + c div 64 mod 64)) = 0x80 + c div 64 mod 64"
      by (intro unat_byte_of) simp
    have 4: "unat (byte_of (0x80 + c mod 64)) = 0x80 + c mod 64"
      by (intro unat_byte_of) simp
    have bs: "bs = [byte_of (0xF0 + c div 262144), byte_of (0x80 + c div 4096 mod 64),
                    byte_of (0x80 + c div 64 mod 64), byte_of (0x80 + c mod 64)]"
      using assms d by (simp add: utf8_encode_cp_def)
    have r: "c div 262144 \<le> 4" using d by simp
    show ?thesis unfolding bs using r d
      by (simp add: 1 2 3 4 is_cont_def cont_bits_def sextets4 mod_64_le)
  qed
qed

lemma utf8_decode_encode: "utf8_encode p = Inr bs \<Longrightarrow> utf8_decode bs = Inr p"
proof (induction p arbitrary: bs)
  case Nil
  then show ?case by (simp add: utf8_decode.simps)
next
  case (Cons c cs)
  then obtain b1 b2 where e: "utf8_encode_cp c = Inr b1" "utf8_encode cs = Inr b2" "bs = b1 @ b2"
    by (auto split: sum.splits)
  have ne: "b1 \<noteq> []" using e(1) by (auto simp: utf8_encode_cp_def split: if_splits)
  have "utf8_decode (b1 @ b2) = push c (utf8_decode b2)"
    using ne by (subst utf8_decode.simps) (simp add: utf8_next_encode_cp [OF e(1)])
  then show ?case using Cons.IH [OF e(2)] e(3) by (simp add: push_def)
qed

section \<open>Lemmas on base64\<close>

lemma b64_char_lt: "n < 64 \<Longrightarrow> b64_char n < 128"
  unfolding b64_char_def by (auto split: if_splits)

lemma b64_char_ne_pad: "n < 64 \<Longrightarrow> b64_char n \<noteq> 61"
  unfolding b64_char_def by (auto split: if_splits)

lemma b64_index_char: "n < 64 \<Longrightarrow> b64_index (b64_char n) = Some n"
  unfolding b64_char_def b64_index_def by (auto split: if_splits)

lemma unat_b64_char: "n < 64 \<Longrightarrow> unat (byte_of (b64_char n)) = b64_char n"
  using b64_char_lt [of n] by (intro unat_byte_of) linarith

lemma unat_lt_256: "unat (b :: byte) < 256"
  using unsigned_less [of b, where 'a = nat] by simp

lemma byte_of_unat: "byte_of (unat b) = b"
  by (simp add: byte_of_def)

lemma a2b_data:
  "n < 64 \<Longrightarrow> a2b_base64 (byte_of (b64_char n) # rest) q l p out =
     (if q = 0 then a2b_base64 rest 1 n 0 out
      else if q = 1 then a2b_base64 rest 2 (n mod 16) 0 (out @ [byte_of ((l * 4 + n div 16) mod 256)])
      else if q = 2 then a2b_base64 rest 3 (n mod 4) 0 (out @ [byte_of ((l * 16 + n div 4) mod 256)])
      else a2b_base64 rest 0 0 0 (out @ [byte_of ((l * 64 + n) mod 256)]))"
  by (simp add: unat_b64_char b64_char_ne_pad b64_index_char)

lemma f1: "B < 256 \<Longrightarrow> (x * 16 + B div 16) div 16 = (x::nat)"
  by simp
lemma f2: "B < 256 \<Longrightarrow> (x * 16 + B div 16) mod 16 = (B::nat) div 16"
  by simp
lemma f3: "C < 256 \<Longrightarrow> (y * 4 + C div 64) div 4 = (y::nat)"
  by simp
lemma f4: "C < 256 \<Longrightarrow> (y * 4 + C div 64) mod 4 = (C::nat) div 64"
  by simp
lemma g0: "A < 256 \<Longrightarrow> (A::nat) div 4 < 64"
  by simp
lemma g1: "B < 256 \<Longrightarrow> (A::nat) mod 4 * 16 + B div 16 < 64"
proof -
  assume "B < 256"
  then have "B div 16 < 16" by simp
  moreover have "A mod 4 < 4" by simp
  ultimately show ?thesis by linarith
qed
lemma g2: "C < 256 \<Longrightarrow> (B::nat) mod 16 * 4 + C div 64 < 64"
proof -
  assume "C < 256"
  then have "C div 64 < 4" by simp
  moreover have "B mod 16 < 16" by simp
  ultimately show ?thesis by linarith
qed
lemma g1': "(A::nat) mod 4 * 16 < 64"
proof -
  have "A mod 4 < 4" by simp
  then show ?thesis by linarith
qed
lemma g2': "(B::nat) mod 16 * 4 < 64"
proof -
  have "B mod 16 < 16" by simp
  then show ?thesis by linarith
qed
lemma h1: "(A::nat) div 4 * 4 + A mod 4 = A" by simp
lemma h2: "(A::nat) div 16 * 16 + A mod 16 = A" by simp
lemma h3: "(A::nat) div 64 * 64 + A mod 64 = A" by simp

lemma d16: "B < 256 \<Longrightarrow> (B::nat) div 16 mod 16 = B div 16"
  by simp
lemma d64: "C < 256 \<Longrightarrow> (C::nat) div 64 mod 4 = C div 64"
  by simp

lemma byte_of_mod: "byte_of (unat b mod 256) = b"
  using unat_lt_256 [of b] by (simp add: byte_of_unat)

lemma a2b_pad:
  "a2b_base64 (byte_of 61 # rest) q l p out =
     (if 2 \<le> q then (if 4 \<le> q + (p + 1) then Inr out else a2b_base64 rest q l (p + 1) out)
      else a2b_base64 rest q l p out)"
  by (simp add: unat_byte_of)

lemma a2b_b64encode: "a2b_base64 (b64encode bs) 0 0 0 out = Inr (out @ bs)"
proof (induction bs arbitrary: out rule: b64encode.induct)
  case 1
  show ?case by simp
next
  case (2 a)
  have A: "unat a < 256" by (rule unat_lt_256)
  show ?case
    by (simp add: a2b_data g0 [OF A] g1' a2b_pad h1 byte_of_mod byte_of_unat del: a2b_base64.simps(2))
next
  case (3 a b)
  have A: "unat a < 256" and B: "unat b < 256" by (rule unat_lt_256)+
  show ?case
    by (simp add: a2b_data g0 [OF A] g1 [OF B] g2' a2b_pad f1 [OF B] f2 [OF B] d16 [OF B] h1 h2 byte_of_mod byte_of_unat del: a2b_base64.simps(2))
next
  case (4 a b c r)
  have A: "unat a < 256" and B: "unat b < 256" and C: "unat c < 256" by (rule unat_lt_256)+
  have "a2b_base64 (b64encode (a # b # c # r)) 0 0 0 out
        = a2b_base64 (b64encode r) 0 0 0 (out @ [a, b, c])"
    by (simp add: a2b_data g0 [OF A] g1 [OF B] g2 [OF C] f1 [OF B] f2 [OF B] f3 [OF C] f4 [OF C] d16 [OF B] d64 [OF C]
          h1 h2 h3 byte_of_mod byte_of_unat del: a2b_base64.simps(2))
  then show ?case using 4 [of "out @ [a, b, c]"] by simp
qed

section \<open>Lemmas on the codec\<close>

lemma length_tag_bytes: "length (tag_bytes t) = 16"
  by (simp add: tag_bytes_def)

lemma length_digest: "length (digest A c ct) = 16"
  by (simp add: digest_def length_tag_bytes)

lemma length_gctr: "length (gctr A c data) = length data"
  by (simp add: gctr_def)

lemma gctr_nth:
  "i < length data \<Longrightarrow> gctr A c data ! i = data ! i XOR keystream A (cipher_key c) (cipher_nonce c) i"
  by (simp add: gctr_def)

lemma gctr_gctr: "gctr A c (gctr A c data) = data"
proof (rule nth_equalityI)
  show "length (gctr A c (gctr A c data)) = length data" by (simp add: length_gctr)
next
  fix i assume "i < length (gctr A c (gctr A c data))"
  then have i: "i < length data" by (simp add: length_gctr)
  then have "gctr A c (gctr A c data) ! i
      = (data ! i XOR keystream A (cipher_key c) (cipher_nonce c) i)
          XOR keystream A (cipher_key c) (cipher_nonce c) i"
    by (simp add: gctr_nth length_gctr)
  also have "\<dots> = data ! i" by (simp add: xor.assoc)
  finally show "gctr A c (gctr A c data) ! i = data ! i" .
qed

lemma b64encode_ascii: "b \<in> set (b64encode bs) \<Longrightarrow> unat b < 128"
proof (induction bs rule: b64encode.induct)
  case 1
  then show ?case by simp
next
  case (2 a)
  have A: "unat a < 256" by (rule unat_lt_256)
  show ?case using 2
    by (auto simp: unat_b64_char g0 [OF A] g1' unat_byte_of intro!: b64_char_lt)
next
  case (3 a b')
  have A: "unat a < 256" and B: "unat b' < 256" by (rule unat_lt_256)+
  show ?case using 3
    by (auto simp: unat_b64_char g0 [OF A] g1 [OF B] g2' unat_byte_of intro!: b64_char_lt)
next
  case (4 a b' c r)
  have A: "unat a < 256" and B: "unat b' < 256" and C: "unat c < 256" by (rule unat_lt_256)+
  have m: "unat c mod 64 < 64" by simp
  show ?case using 4
    by (auto simp: unat_b64_char g0 [OF A] g1 [OF B] g2 [OF C] m intro!: b64_char_lt)
qed

lemma utf8_decode_ascii:
  "(\<And>b. b \<in> set bs \<Longrightarrow> unat b < 128) \<Longrightarrow> utf8_decode bs = Inr (map unat bs)"
proof (induction bs)
  case Nil
  show ?case by (simp add: utf8_decode.simps)
next
  case (Cons b bs)
  have b: "unat b < 128" using Cons.prems by simp
  have "utf8_decode (b # bs) = push (unat b) (utf8_decode bs)"
    using b by (subst utf8_decode.simps) simp
  then show ?case using Cons by (simp add: push_def)
qed

lemma b64decode_b64encode: "b64decode (map unat (b64encode bs)) = Inr bs"
proof -
  have "\<not> list_ex (\<lambda>c. 128 \<le> c) (map unat (b64encode bs))"
  proof
    assume "list_ex (\<lambda>c. 128 \<le> c) (map unat (b64encode bs))"
    then obtain b where "b \<in> set (b64encode bs)" "128 \<le> unat b"
      by (auto simp: list_ex_iff)
    then show False using b64encode_ascii [of b bs] by simp
  qed
  moreover have "map byte_of (map unat (b64encode bs)) = b64encode bs"
    by (simp add: byte_of_unat comp_def)
  ultimately show ?thesis
    using a2b_b64encode [of bs "[]"] by (simp add: b64decode_def)
qed

lemma encrypt_value_eq:
  assumes "utf8_encode p = Inr data"
  shows "encrypt_value A key p r =
           (Inr (map unat (b64encode (envelope A key (map r [0..<12]) data))), \<lambda>i. r (i + 12))"
proof -
  have ne: "map r [0..<12] \<noteq> []" by simp
  show ?thesis
    using assms ne
    by (simp add: encrypt_value_def get_random_bytes_def AES_new_def encrypt_and_digest_def
          envelope_def Let_def utf8_decode_ascii [OF b64encode_ascii] del: upt_Suc)
qed

lemma decrypt_value_envelope:
  assumes "utf8_encode p = Inr data" "length iv = 12"
  shows "decrypt_value A key (map unat (b64encode (envelope A key iv data))) = Inr p"
proof -
  have iv: "iv \<noteq> []" using assms(2) by auto
  show ?thesis
    using assms iv
    by (simp add: decrypt_value_def b64decode_b64encode envelope_def Let_def AES_new_def
          decrypt_and_verify_def length_digest gctr_gctr utf8_decode_encode)
qed

lemma utf8_encode_scalar: "scalar_values p \<Longrightarrow> \<exists>data. utf8_encode p = Inr data"
proof (induction p)
  case Nil
  then show ?case by simp
next
  case (Cons c cs)
  then have "\<exists>bs. utf8_encode_cp c = Inr bs"
    by (auto simp: scalar_values_def utf8_encode_cp_def)
  moreover have "\<exists>data. utf8_encode cs = Inr data"
    using Cons by (simp add: scalar_values_def)
  ultimately show ?case by auto
qed

lemma utf8_encode_not_scalar: "\<not> scalar_values p \<Longrightarrow> utf8_encode p = Inl UnicodeEncodeError"
proof (induction p)
  case Nil
  then show ?case by (simp add: scalar_values_def)
next
  case (Cons c cs)
  show ?case
  proof (cases "c < 0x110000 \<and> \<not> (0xD800 \<le> c \<and> c \<le> 0xDFFF)")
    case True
    then have "\<not> scalar_values cs" using Cons.prems by (simp add: scalar_values_def)
    then have "utf8_encode cs = Inl UnicodeEncodeError" by (rule Cons.IH)
    moreover have "\<exists>bs. utf8_encode_cp c = Inr bs"
      using True by (auto simp: utf8_encode_cp_def)
    ultimately show ?thesis by auto
  next
    case False
    then have "utf8_encode_cp c = Inl UnicodeEncodeError"
      by (auto simp: utf8_encode_cp_def)
    then show ?thesis by simp
  qed
qed

lemma take_envelope: "length iv = 12 \<Longrightarrow> take 12 (envelope A key iv data) = iv"
  by (simp add: envelope_def Let_def)

lemma length_envelope: "length (envelope A key iv data) = length iv + 16 + length data"
  by (simp add: envelope_def Let_def length_digest length_gctr)

lemma map_unat_inj: "map unat (xs :: bytes) = map unat ys \<Longrightarrow> xs = ys"
proof -
  have "inj (unat :: byte \<Rightarrow> nat)" by (rule injI) (simp only: word_unat_eq_iff)
  then show "map unat xs = map unat ys \<Longrightarrow> xs = ys" by (simp add: inj_map_eq_map)
qed

lemma b64encode_inj: "b64encode xs = b64encode ys \<Longrightarrow> xs = ys"
proof -
  assume "b64encode xs = b64encode ys"
  then have "b64decode (map unat (b64encode xs)) = b64decode (map unat (b64encode ys))" by simp
  then show ?thesis by (simp add: b64decode_b64encode)
qed

lemma encrypt_value_not_scalar:
  "\<not> scalar_values p \<Longrightarrow> encrypt_value A key p r = (Inl UnicodeEncodeError, r)"
  by (simp add: encrypt_value_def utf8_encode_not_scalar)

lemma encrypt_value_Inr:
  assumes "fst (encrypt_value A key p r) = Inr e"
  obtains data where "utf8_encode p = Inr data"
    and "e = map unat (b64encode (envelope A key (map r [0..<12]) data))"
proof (cases "utf8_encode p")
  case (Inl err)
  then show ?thesis using assms by (simp add: encrypt_value_def)
next
  case (Inr data)
  then show ?thesis using assms that by (simp add: encrypt_value_eq [OF Inr])
qed

lemma fst_get_random_bytes: "fst (get_random_bytes n r) = map r [0..<n]"
  by (simp add: get_random_bytes_def)

lemma snd_get_random_bytes: "snd (get_random_bytes n r) = (\<lambda>i. r (i + n))"
  by (simp add: get_random_bytes_def)

lemma envelope_ne:
  assumes "length iv1 = 12" "length iv2 = 12" "iv1 \<noteq> iv2"
  shows "map unat (b64encode (envelope A key iv1 d1)) \<noteq> map unat (b64encode (envelope A key iv2 d2))"
proof
  assume "map unat (b64encode (envelope A key iv1 d1)) = map unat (b64encode (envelope A key iv2 d2))"
  then have "b64encode (envelope A key iv1 d1) = b64encode (envelope A key iv2 d2)"
    by (rule map_unat_inj)
  then have "envelope A key iv1 d1 = envelope A key iv2 d2"
    by (rule b64encode_inj)
  then have "take 12 (envelope A key iv1 d1) = take 12 (envelope A key iv2 d2)"
    by (rule arg_cong)
  then have "iv1 = iv2" by (simp only: take_envelope [OF assms(1)] take_envelope [OF assms(2)])
  then show False using assms(3) by (rule notE [rotated])
qed

lemma b64encode_ne: "bs \<noteq> [] \<Longrightarrow> b64encode bs \<noteq> []"
  by (cases bs rule: b64encode.cases) simp_all

lemma tag_bytes_1: "tag_bytes (1 :: 128 word) = [0,0,0,0,0,0,0,0,0,0,0,0,0,0,0,1]"
  by (simp add: tag_bytes_def upt_rec drop_bit_eq_div)


lemma utf8_encode_a: "utf8_encode (str_of ''a'') = Inr [0x61]"
  by (simp add: str_of_def utf8_encode_cp_def byte_of_def)

lemma envelope_a:
  "envelope demo_gcm 0 (map (const_rng 7) [0..<12]) [0x61]
     = [7,7,7,7,7,7,7,7,7,7,7,7, 0,0,0,0,0,0,0,0,0,0,0,0,0,0,0,1, 0x6D]"
  by (simp add: envelope_def Let_def gctr_def digest_def tag_bytes_1 demo_gcm_def const_rng_def
        byte_of_def upt_rec)

lemma b64encode_envelope_a:
  "map unat (b64encode [7,7,7,7,7,7,7,7,7,7,7,7, 0,0,0,0,0,0,0,0,0,0,0,0,0,0,0,1, 0x6D])
     = str_of ''BwcHBwcHBwcHBwcHAAAAAAAAAAAAAAAAAAAAAW0=''"
  by (simp add: str_of_def b64_char_def unat_byte_of)

lemma encrypt_value_a:
  "fst (encrypt_value demo_gcm 0 (str_of ''a'') (const_rng 7))
     = Inr (str_of ''BwcHBwcHBwcHBwcHAAAAAAAAAAAAAAAAAAAAAW0='')"
  by (simp only: encrypt_value_eq [OF utf8_encode_a] envelope_a b64encode_envelope_a fst_conv)














section \<open>Lemmas on the intake form\<close>

lemma server_call_ok: "faults (conn w) = [] \<Longrightarrow> server_call w = (Inr (), w)"
  by (simp add: server_call_def)

lemma and_then_Inr: "m w = (Inr a, w') \<Longrightarrow> and_then m f w = f a w'"
  by (simp add: and_then_def)

lemma and_then_Inl: "m w = (Inl e, w') \<Longrightarrow> and_then m f w = (Inl e, w')"
  by (simp add: and_then_def)

lemma encrypt_ok:
  assumes "scalar_values p"
  shows "\<exists>e. encrypt A key p w = (Inr e, w\<lparr>rand := \<lambda>i. rand w (i + 12)\<rparr>)
            \<and> decrypt_value A key e = Inr p"
proof -
  from assms obtain data where d: "utf8_encode p = Inr data" using utf8_encode_scalar by blast
  have "decrypt_value A key (map unat (b64encode (envelope A key (map (rand w) [0..<12]) data))) = Inr p"
    by (rule decrypt_value_envelope [OF d]) simp
  then show ?thesis
    by (simp add: encrypt_def encrypt_value_eq [OF d])
qed

lemma store_intake_ok:
  fixes dob email :: str
  assumes f: "faults (conn w) = []"
    and s: "scalar_values mrn" "scalar_values diagnosis" "scalar_values insurance"
      "scalar_values card_number"
  shows "\<exists>mrn_enc diagnosis_enc insurance_policy_enc card_number_enc w'.
      store_intake A key full_name dob email phone address mrn diagnosis insurance card_number
        amount w = (Inr (), w')
    \<and> decrypt_value A key mrn_enc = Inr mrn
    \<and> decrypt_value A key diagnosis_enc = Inr diagnosis
    \<and> decrypt_value A key insurance_policy_enc = Inr insurance
    \<and> decrypt_value A key card_number_enc = Inr card_number
    \<and> committed (conn w') =
        (let db = committed (conn w);
             patient_id = Suc (counters (conn w) ''patients'');
             billing_id = Suc (counters (conn w) ''billing'')
         in db(''patients'' := db ''patients'' @
                  [(patient_id, [Text full_name, Text dob, Text email, Text phone, Text address])],
               ''medical_records'' := db ''medical_records'' @
                  [(Suc (counters (conn w) ''medical_records''),
                    [Num (int patient_id), Text mrn_enc, Text diagnosis_enc])],
               ''insurance'' := db ''insurance'' @
                  [(Suc (counters (conn w) ''insurance''),
                    [Num (int patient_id), Text insurance_policy_enc, Text (str_of ''Unknown'')])],
               ''billing'' := db ''billing'' @
                  [(billing_id, [Num (int patient_id), Text amount, Text (str_of ''PENDING'')])],
               ''payments'' := db ''payments'' @
                  [(Suc (counters (conn w) ''payments''),
                    [Num (int billing_id), Text card_number_enc])]))"
proof -
  obtain d1 where d1: "utf8_encode mrn = Inr d1"
    using utf8_encode_scalar [OF s(1)] by blast
  obtain d2 where d2: "utf8_encode diagnosis = Inr d2"
    using utf8_encode_scalar [OF s(2)] by blast
  obtain d3 where d3: "utf8_encode insurance = Inr d3"
    using utf8_encode_scalar [OF s(3)] by blast
  obtain d4 where d4: "utf8_encode card_number = Inr d4"
    using utf8_encode_scalar [OF s(4)] by blast
  note d = d1 d2 d3 d4
  define E where "E = (\<lambda>r data. map unat (b64encode (envelope A key (map r [0..<12]) data)))"
  have enc: "\<And>p data v. utf8_encode p = Inr data \<Longrightarrow>
      encrypt A key p v = (Inr (E (rand v) data), v\<lparr>rand := \<lambda>i. rand v (i + 12)\<rparr>)"
    by (simp add: encrypt_def encrypt_value_eq E_def)
  have dec: "\<And>p data r. utf8_encode p = Inr data \<Longrightarrow> decrypt_value A key (E r data) = Inr p"
    unfolding E_def by (rule decrypt_value_envelope) simp_all
  let ?r0 = "rand w"
  let ?r1 = "\<lambda>i. rand w (i + 12)"
  let ?r2 = "\<lambda>i. rand w (i + 12 + 12)"
  let ?r3 = "\<lambda>i. rand w (i + 12 + 12 + 12)"
  show ?thesis
    apply (rule exI [of _ "E ?r0 d1"])
    apply (rule exI [of _ "E ?r1 d2"])
    apply (rule exI [of _ "E ?r2 d3"])
    apply (rule exI [of _ "E ?r3 d4"])
    apply (simp add: store_intake_def and_then_def get_db_conn_def cursor_def commit_def
        cursor_close_def connection_close_def server_call_def execute_insert_def
        after_insert_def f
        enc [OF d(1)] enc [OF d(2)] enc [OF d(3)] enc [OF d(4)]
        dec [OF d(1)] dec [OF d(2)] dec [OF d(3)] dec [OF d(4)] Let_def)
    done
qed

lemma strip_plain [simp]:
  "strip (str_of ''A'') = str_of ''A''"
  "strip (str_of ''A '') = str_of ''A''"
  "strip (str_of ''Al'') = str_of ''Al''"
  "strip (str_of ''a@b.com'') = str_of ''a@b.com''"
  "strip (str_of ''abc'') = str_of ''abc''"
  "strip (str_of ''ab'') = str_of ''ab''"
  "strip (str_of ''1234'') = str_of ''1234''"
  "strip (str_of ''12'') = str_of ''12''"
  "strip [] = []"
  by (simp_all add: strip_def str_of_def isspace_def)

lemma length_str_of: "length (str_of s) = length s"
  by (simp add: str_of_def)

lemma demo_fields:
  "0x40 \<in> set (str_of ''a@b.com'')"
  "scalar_values (str_of ''abc'')"
  "scalar_values (str_of ''1234'')"
  "scalar_values []"
  by (simp_all add: str_of_def scalar_values_def)

lemma faults_demo_world: "faults (conn (demo_world fs)) = fs"
  by (simp add: demo_world_def empty_connection_def)

lemma store_intake_fault:
  fixes dob email :: str
  assumes "faults (conn w) = Some m # fs"
  shows "fst (store_intake A key full_name dob email phone address mrn diagnosis insurance
            card_number amount w) = Inl (DatabaseError m)"
  using assms by (simp add: store_intake_def and_then_def get_db_conn_def server_call_def)

lemma store_intake_not_scalar:
  fixes dob email :: str
  assumes "faults (conn w) = []" "\<not> scalar_values mrn"
  shows "fst (store_intake A key full_name dob email phone address mrn diagnosis insurance
            card_number amount w) = Inl (CodecError UnicodeEncodeError)"
  using assms
  by (simp add: store_intake_def and_then_def get_db_conn_def cursor_def server_call_def
        execute_insert_def after_insert_def encrypt_def encrypt_value_not_scalar Let_def)

section \<open>Lemmas on the repository\<close>

lemma length_b64encode: "length bs \<le> length (b64encode bs)"
  by (induction bs rule: b64encode.induct) simp_all

lemma b64encode_envelope_ne: "b64encode (envelope A key iv data) \<noteq> data"
proof
  assume "b64encode (envelope A key iv data) = data"
  then have "length (b64encode (envelope A key iv data)) = length data" by simp
  moreover have "length (envelope A key iv data) \<le> length (b64encode (envelope A key iv data))"
    by (rule length_b64encode)
  ultimately show False by (simp add: length_envelope)
qed

lemma utf8_encode_ascii:
  "\<forall>b \<in> set bs. unat b < 128 \<Longrightarrow> utf8_encode (map unat bs) = Inr bs"
proof (induction bs)
  case Nil
  then show ?case by simp
next
  case (Cons b bs)
  then have "unat b < 128" by simp
  then have "utf8_encode_cp (unat b) = Inr [b]"
    by (simp add: utf8_encode_cp_def byte_of_unat)
  then show ?case using Cons by simp
qed

lemma utf8_encode_b64encode: "utf8_encode (map unat (b64encode bs)) = Inr (b64encode bs)"
  by (rule utf8_encode_ascii) (simp add: b64encode_ascii)

lemma utf8_decode_b64encode: "utf8_decode (b64encode bs) = Inr (map unat (b64encode bs))"
  by (rule utf8_decode_encode [OF utf8_encode_b64encode])

lemma encrypt_data_ok:
  assumes "utf8_encode p = Inr data"
  shows "encrypt_data A key p w =
     (Inr (map unat (b64encode (envelope A key (map (rand w) [0..<12]) data))),
      w\<lparr>rand := \<lambda>i. rand w (i + 12)\<rparr>)"
  using assms by (simp add: encrypt_data_def encrypt_def encrypt_value_eq)

lemma envelope_not_Nil: "length iv = 12 \<Longrightarrow> envelope A key iv data \<noteq> []"
  by (auto simp: envelope_def Let_def)

lemma decrypt_data_stored:
  assumes "utf8_encode p = Inr data" "length iv = 12"
  shows "decrypt_data A key (Blob (b64encode (envelope A key iv data))) w = (Inr p, w)"
proof -
  have "b64encode (envelope A key iv data) \<noteq> []"
    by (rule b64encode_ne) (rule envelope_not_Nil [OF assms(2)])
  then show ?thesis
    by (simp add: decrypt_data_def utf8_decode_b64encode decrypt_value_envelope [OF assms]
          return_def)
qed

lemma insert_patient_data_ok:
  assumes f: "faults (conn w) = []"
    and d: "utf8_encode (phone_number pd) = Inr d1" "utf8_encode (email pd) = Inr d2"
      "utf8_encode (ssn pd) = Inr d3" "utf8_encode (state_id pd) = Inr d4"
  shows "\<exists>w'. insert_patient_data A key pd w = (Inr (Suc (counters (conn w) ''Patient'')), w')
     \<and> faults (conn w') = []
     \<and> working (conn w') = (working (conn w))(''Patient'' := working (conn w) ''Patient'' @
          [(Suc (counters (conn w) ''Patient''), stored_patient A key (rand w) pd d1 d2 d3 d4)])
     \<and> committed (conn w') = working (conn w')"
  using f
  by (simp add: insert_patient_data_def and_then_def cursor_def server_call_def
        encrypt_data_ok [OF d(1)] encrypt_data_ok [OF d(2)] encrypt_data_ok [OF d(3)]
        encrypt_data_ok [OF d(4)] execute_insert_def after_insert_def commit_def
        cursor_close_def return_def Let_def stored_patient_def del: upt_Suc)

lemma find_last:
  assumes "\<forall>y \<in> set xs. \<not> P y" "P x"
  shows "find P (xs @ [x]) = Some x"
  using assms by (induction xs) simp_all

lemma fetched_patient:
  "fetched ''Patient'' (k, stored_patient A key r pd d1 d2 d3 d4) =
     [Num (int k), Text (first_name pd), Text (last_name pd), Text (dob pd), Text (gender pd),
      Blob (b64encode (envelope A key (map r [0..<12]) d1)),
      Blob (b64encode (envelope A key (map (\<lambda>i. r (i + 12)) [0..<12]) d2)),
      Blob (b64encode (envelope A key (map (\<lambda>i. r (i + 12 + 12)) [0..<12]) d3)),
      Blob (b64encode (envelope A key (map (\<lambda>i. r (i + 12 + 12 + 12)) [0..<12]) d4)),
      (case primary_doctor_id pd of None \<Rightarrow> Null | Some n \<Rightarrow> Num n)]"
proof -
  have u: "[0..<Suc (length (stored_patient A key r pd d1 d2 d3 d4))] = [0,1,2,3,4,5,6,7,8,9]"
    by (simp add: stored_patient_def upt_rec)
  show ?thesis
    unfolding fetched_def fst_conv snd_conv u
    by (cases "primary_doctor_id pd")
       (simp_all add: stored_patient_def blob_positions_def utf8_encode_b64encode del: upt_Suc)
qed

lemma execute_select_ok:
  assumes f: "faults (conn w) = []"
    and t: "working (conn w) ''Patient'' = rows @ [(k, stored_patient A key r pd d1 d2 d3 d4)]"
    and n: "\<forall>y \<in> set rows. fst y \<noteq> k"
  shows "execute_select ''Patient'' (int k) w
      = (Inr (Some (fetched ''Patient'' (k, stored_patient A key r pd d1 d2 d3 d4))), w)"
proof -
  have fnd: "find (\<lambda>r. fst r = k) (working (conn w) ''Patient'')
      = Some (k, stored_patient A key r pd d1 d2 d3 d4)"
    unfolding t using n by (intro find_last) simp_all
  show ?thesis
    using f by (simp add: execute_select_def and_then_def server_call_def fnd)
qed

lemma get_patient_data_ok:
  assumes f: "faults (conn w) = []"
    and d: "utf8_encode (phone_number pd) = Inr d1" "utf8_encode (email pd) = Inr d2"
      "utf8_encode (ssn pd) = Inr d3" "utf8_encode (state_id pd) = Inr d4"
    and t: "working (conn w) ''Patient'' = rows @ [(k, stored_patient A key r pd d1 d2 d3 d4)]"
    and n: "\<forall>y \<in> set rows. fst y \<noteq> k"
  shows "get_patient_data A key (int k) w =
     (Inr (Some [(''patient_id'', Num (int k)), (''first_name'', Text (first_name pd)),
                 (''last_name'', Text (last_name pd)), (''dob'', Text (dob pd)),
                 (''gender'', Text (gender pd)),
                 (''phone_number'', Text (phone_number pd)), (''email'', Text (email pd)),
                 (''ssn'', Text (ssn pd)), (''state_id'', Text (state_id pd)),
                 (''primary_doctor_id'',
                    case primary_doctor_id pd of None \<Rightarrow> Null | Some n \<Rightarrow> Num n)]), w)"
proof -
  note sel = execute_select_ok [OF f t n, unfolded fetched_patient]
  have c: "cursor w = (Inr (), w)" using f by (simp add: cursor_def server_call_def)
  show ?thesis
    unfolding get_patient_data_def
    by (simp add: c sel and_then_def item_def return_def
          decrypt_data_stored [OF d(1)] decrypt_data_stored [OF d(2)]
          decrypt_data_stored [OF d(3)] decrypt_data_stored [OF d(4)] del: upt_Suc)
qed

lemma demo_patient_scalar:
  "scalar_values (phone_number demo_patient)" "scalar_values (email demo_patient)"
  "scalar_values (ssn demo_patient)" "scalar_values (state_id demo_patient)"
  by (simp_all add: demo_patient_def str_of_def scalar_values_def)

lemma demo_world_empty:
  "working (conn (demo_world fs)) t = []" "committed (conn (demo_world fs)) t = []"
  "counters (conn (demo_world fs)) t = 0"
  by (simp_all add: demo_world_def empty_connection_def)

lemma insert_patient_data_commits:
  assumes f: "faults (conn w) = None # None # None # None # fs"
    and d: "utf8_encode (phone_number pd) = Inr d1" "utf8_encode (email pd) = Inr d2"
      "utf8_encode (ssn pd) = Inr d3" "utf8_encode (state_id pd) = Inr d4"
  shows "\<exists>w'. insert_patient_data A key pd w = (Inr (Suc (counters (conn w) ''Patient'')), w')
     \<and> faults (conn w') = fs
     \<and> working (conn w') = (working (conn w))(''Patient'' := working (conn w) ''Patient'' @
          [(Suc (counters (conn w) ''Patient''), stored_patient A key (rand w) pd d1 d2 d3 d4)])
     \<and> committed (conn w') = working (conn w')"
  using f
  by (simp add: insert_patient_data_def and_then_def cursor_def server_call_def
        encrypt_data_ok [OF d(1)] encrypt_data_ok [OF d(2)] encrypt_data_ok [OF d(3)]
        encrypt_data_ok [OF d(4)] execute_insert_def after_insert_def commit_def
        cursor_close_def return_def Let_def stored_patient_def del: upt_Suc)

section \<open>The round trip of the codec\<close>

text \<open>
  C2. A plaintext of Unicode scalar values (a Python string with no lone surrogate code
  point), the empty string included, is encrypted without error whatever the key, the cipher
  and the random octets are, and \<open>decrypt_value\<close> under the same key gives back exactly
  that plaintext. On every other string, that is on every string that holds a lone surrogate,
  \<open>encrypt_value\<close> raises \<open>UnicodeEncodeError\<close> and there is no envelope.
\<close>

theorem roundtrip:
  "(scalar_values p \<longrightarrow>
      (\<exists>e. fst (encrypt_value A key p r) = Inr e \<and> decrypt_value A key e = Inr p)) \<and>
   (\<not> scalar_values p \<longrightarrow> fst (encrypt_value A key p r) = Inl UnicodeEncodeError)"
proof (intro conjI impI)
  assume "scalar_values p"
  then obtain data where d: "utf8_encode p = Inr data" using utf8_encode_scalar by blast
  have "decrypt_value A key (map unat (b64encode (envelope A key (map r [0..<12]) data))) = Inr p"
    by (rule decrypt_value_envelope [OF d]) simp
  then show "\<exists>e. fst (encrypt_value A key p r) = Inr e \<and> decrypt_value A key e = Inr p"
    by (simp add: encrypt_value_eq [OF d])
next
  assume "\<not> scalar_values p"
  then show "fst (encrypt_value A key p r) = Inl UnicodeEncodeError"
    by (simp add: encrypt_value_not_scalar)
qed

theorem roundtrip_witness:
  "scalar_values (str_of ''555-0101'') \<and>
   (\<exists>e. fst (encrypt_value demo_gcm 0 (str_of ''555-0101'') (const_rng 7)) = Inr e
        \<and> decrypt_value demo_gcm 0 e = Inr (str_of ''555-0101'')) \<and>
   \<not> scalar_values [0x41, 0xDFFF] \<and>
   fst (encrypt_value demo_gcm 0 [0x41, 0xDFFF] (const_rng 7)) = Inl UnicodeEncodeError"
  using roundtrip [of "str_of ''555-0101''" demo_gcm 0 "const_rng 7"]
    roundtrip [of "[0x41, 0xDFFF]" demo_gcm 0 "const_rng 7"]
  by (simp add: str_of_def scalar_values_def)

text \<open>
  A string that holds the lone surrogate U+D800 is a Python string, and
  \<open>plaintext.encode("utf-8")\<close> raises on it: there is no envelope to decrypt.
\<close>

theorem roundtrip_surrogate_counterexample:
  "fst (encrypt_value demo_gcm 0 [0xD800] (const_rng 7)) = Inl UnicodeEncodeError"
  by (simp add: encrypt_value_def utf8_encode_cp_def)

section \<open>The length of an envelope\<close>

text \<open>
  C10. For a plaintext of Unicode scalar values, the octets under the base64 text that
  \<open>encrypt_value\<close> returns are 28 more than the octets of the UTF-8 encoding of the
  plaintext: the length of the stored value tells the length of the value it hides. On
  every other string \<open>encrypt_value\<close> raises \<open>UnicodeEncodeError\<close>: there is neither a UTF-8
  encoding nor an envelope.
\<close>

theorem envelope_length:
  "(scalar_values p \<longrightarrow>
      (\<exists>data e raw. utf8_encode p = Inr data \<and> fst (encrypt_value A key p r) = Inr e
          \<and> b64decode e = Inr raw \<and> length raw = 28 + length data)) \<and>
   (\<not> scalar_values p \<longrightarrow>
      utf8_encode p = Inl UnicodeEncodeError \<and>
      fst (encrypt_value A key p r) = Inl UnicodeEncodeError)"
proof (intro conjI impI)
  assume "scalar_values p"
  then obtain data where d: "utf8_encode p = Inr data" using utf8_encode_scalar by blast
  show "\<exists>data e raw. utf8_encode p = Inr data \<and> fst (encrypt_value A key p r) = Inr e
          \<and> b64decode e = Inr raw \<and> length raw = 28 + length data"
    by (simp add: d encrypt_value_eq [OF d] b64decode_b64encode length_envelope)
next
  assume "\<not> scalar_values p"
  then show "utf8_encode p = Inl UnicodeEncodeError" by (rule utf8_encode_not_scalar)
next
  assume "\<not> scalar_values p"
  then show "fst (encrypt_value A key p r) = Inl UnicodeEncodeError"
    by (simp add: encrypt_value_not_scalar)
qed

theorem envelope_length_witness:
  "scalar_values [0x41, 0xE9, 0x20AC] \<and>
   (\<exists>data e raw. utf8_encode [0x41, 0xE9, 0x20AC] = Inr data
       \<and> fst (encrypt_value demo_gcm 0 [0x41, 0xE9, 0x20AC] (const_rng 7)) = Inr e
       \<and> b64decode e = Inr raw \<and> length raw = 28 + length data) \<and>
   utf8_encode [0x41, 0xE9, 0x20AC] = Inr (map byte_of [0x41, 0xC3, 0xA9, 0xE2, 0x82, 0xAC]) \<and>
   \<not> scalar_values [0xDC00, 0x42] \<and>
   utf8_encode [0xDC00, 0x42] = Inl UnicodeEncodeError \<and>
   fst (encrypt_value demo_gcm 0 [0xDC00, 0x42] (const_rng 7)) = Inl UnicodeEncodeError"
proof -
  have s: "scalar_values [0x41, 0xE9, 0x20AC]" by (simp add: scalar_values_def)
  have n: "\<not> scalar_values [0xDC00, 0x42]" by (simp add: scalar_values_def)
  have h: "utf8_encode [0x41, 0xE9, 0x20AC] = Inr (map byte_of [0x41, 0xC3, 0xA9, 0xE2, 0x82, 0xAC])"
    by (simp add: utf8_encode_cp_def)
  show ?thesis
    using s n h envelope_length [of "[0x41, 0xE9, 0x20AC]" demo_gcm 0 "const_rng 7"]
      envelope_length [of "[0xDC00, 0x42]" demo_gcm 0 "const_rng 7"]
    by simp
qed

text \<open>
  The string of the one code point U+DFFF has no UTF-8 encoding, and \<open>encrypt_value\<close>
  returns no envelope for it, so there is no length to speak of.
\<close>

theorem envelope_length_surrogate_counterexample:
  "encrypt_value demo_gcm 0 [0xDFFF] (const_rng 7) = (Inl UnicodeEncodeError, const_rng 7)"
  by (simp add: encrypt_value_def utf8_encode_cp_def)

section \<open>Nonces\<close>

text \<open>
  C7. For a plaintext of Unicode scalar values, every call of \<open>encrypt_value\<close> draws 12
  octets from the random source and uses them as the nonce: they are the first 12 octets
  under the base64 text it returns, the source is left 12 octets further, so that the
  next call draws the 12 octets that follow, and two calls with the same key that drew
  distinct nonces return different envelopes. On every other string the call raises
  \<open>UnicodeEncodeError\<close> before it draws anything and leaves the source as it was.
\<close>

theorem nonce_uniqueness:
  "(scalar_values p \<longrightarrow>
      (\<exists>e1 e2 raw. fst (encrypt_value A key p r1) = Inr e1
          \<and> fst (encrypt_value A key p r2) = Inr e2
          \<and> b64decode e1 = Inr raw
          \<and> take 12 raw = fst (get_random_bytes 12 r1)
          \<and> length (fst (get_random_bytes 12 r1)) = 12
          \<and> snd (encrypt_value A key p r1) = snd (get_random_bytes 12 r1)
          \<and> fst (get_random_bytes 12 (snd (encrypt_value A key p r1))) = map r1 [12..<24]
          \<and> (fst (get_random_bytes 12 r1) \<noteq> fst (get_random_bytes 12 r2) \<longrightarrow> e1 \<noteq> e2))) \<and>
   (\<not> scalar_values p \<longrightarrow> encrypt_value A key p r1 = (Inl UnicodeEncodeError, r1))"
proof (intro conjI impI)
  assume "scalar_values p"
  then obtain d where d: "utf8_encode p = Inr d" using utf8_encode_scalar by blast
  let ?e1 = "map unat (b64encode (envelope A key (map r1 [0..<12]) d))"
  let ?e2 = "map unat (b64encode (envelope A key (map r2 [0..<12]) d))"
  have 1: "fst (encrypt_value A key p r1) = Inr ?e1" by (simp add: encrypt_value_eq [OF d])
  have 2: "fst (encrypt_value A key p r2) = Inr ?e2" by (simp add: encrypt_value_eq [OF d])
  have 3: "b64decode ?e1 = Inr (envelope A key (map r1 [0..<12]) d)"
    by (rule b64decode_b64encode)
  have 4: "take 12 (envelope A key (map r1 [0..<12]) d) = fst (get_random_bytes 12 r1)"
    unfolding fst_get_random_bytes by (rule take_envelope) simp
  have 5: "length (fst (get_random_bytes 12 r1)) = 12"
    unfolding fst_get_random_bytes by simp
  have 6: "snd (encrypt_value A key p r1) = snd (get_random_bytes 12 r1)"
    by (simp add: encrypt_value_eq [OF d] snd_get_random_bytes)
  have "map (\<lambda>i. r1 (i + 12)) [0..<12] = map r1 (map (\<lambda>i. i + 12) [0..<12])"
    by (simp only: map_map comp_def)
  also have "map (\<lambda>i. i + 12) [0..<12] = [12..<24]"
    using map_add_upt [of 12 12] by simp
  finally have 7: "fst (get_random_bytes 12 (snd (encrypt_value A key p r1))) = map r1 [12..<24]"
    by (simp only: 6 snd_get_random_bytes fst_get_random_bytes)
  have 8: "fst (get_random_bytes 12 r1) \<noteq> fst (get_random_bytes 12 r2) \<longrightarrow> ?e1 \<noteq> ?e2"
    unfolding fst_get_random_bytes
  proof
    assume "map r1 [0..<12] \<noteq> map r2 [0..<12]"
    then show "?e1 \<noteq> ?e2" by (intro envelope_ne) simp_all
  qed
  from 1 2 3 4 5 6 7 8
  show "\<exists>e1 e2 raw. fst (encrypt_value A key p r1) = Inr e1
          \<and> fst (encrypt_value A key p r2) = Inr e2
          \<and> b64decode e1 = Inr raw
          \<and> take 12 raw = fst (get_random_bytes 12 r1)
          \<and> length (fst (get_random_bytes 12 r1)) = 12
          \<and> snd (encrypt_value A key p r1) = snd (get_random_bytes 12 r1)
          \<and> fst (get_random_bytes 12 (snd (encrypt_value A key p r1))) = map r1 [12..<24]
          \<and> (fst (get_random_bytes 12 r1) \<noteq> fst (get_random_bytes 12 r2) \<longrightarrow> e1 \<noteq> e2)"
    by blast
next
  assume "\<not> scalar_values p"
  then show "encrypt_value A key p r1 = (Inl UnicodeEncodeError, r1)"
    by (rule encrypt_value_not_scalar)
qed

theorem nonce_uniqueness_witness:
  "scalar_values (str_of ''a@b.com'') \<and>
   fst (get_random_bytes 12 (const_rng 7)) \<noteq> fst (get_random_bytes 12 (const_rng 8)) \<and>
   (\<exists>e1 e2. fst (encrypt_value demo_gcm 0 (str_of ''a@b.com'') (const_rng 7)) = Inr e1
       \<and> fst (encrypt_value demo_gcm 0 (str_of ''a@b.com'') (const_rng 8)) = Inr e2
       \<and> e1 \<noteq> e2) \<and>
   \<not> scalar_values [0xD83D] \<and>
   encrypt_value demo_gcm 0 [0xD83D] (const_rng 7) = (Inl UnicodeEncodeError, const_rng 7)"
proof -
  have s: "scalar_values (str_of ''a@b.com'')" by (simp add: str_of_def scalar_values_def)
  have n: "\<not> scalar_values [0xD83D]" by (simp add: scalar_values_def)
  have d: "fst (get_random_bytes 12 (const_rng 7)) \<noteq> fst (get_random_bytes 12 (const_rng 8))"
    by (simp add: get_random_bytes_def const_rng_def) (rule exI [of _ 0], simp)
  have "\<exists>e1 e2 raw. fst (encrypt_value demo_gcm 0 (str_of ''a@b.com'') (const_rng 7)) = Inr e1
       \<and> fst (encrypt_value demo_gcm 0 (str_of ''a@b.com'') (const_rng 8)) = Inr e2
       \<and> b64decode e1 = Inr raw
       \<and> take 12 raw = fst (get_random_bytes 12 (const_rng 7))
       \<and> length (fst (get_random_bytes 12 (const_rng 7))) = 12
       \<and> snd (encrypt_value demo_gcm 0 (str_of ''a@b.com'') (const_rng 7))
           = snd (get_random_bytes 12 (const_rng 7))
       \<and> fst (get_random_bytes 12 (snd (encrypt_value demo_gcm 0 (str_of ''a@b.com'') (const_rng 7))))
           = map (const_rng 7) [12..<24]
       \<and> (fst (get_random_bytes 12 (const_rng 7)) \<noteq> fst (get_random_bytes 12 (const_rng 8))
            \<longrightarrow> e1 \<noteq> e2)"
    using nonce_uniqueness [of "str_of ''a@b.com''" demo_gcm 0 "const_rng 7" "const_rng 8",
        THEN conjunct1] s
    by (rule mp)
  then obtain e1 e2 where
    "fst (encrypt_value demo_gcm 0 (str_of ''a@b.com'') (const_rng 7)) = Inr e1"
    "fst (encrypt_value demo_gcm 0 (str_of ''a@b.com'') (const_rng 8)) = Inr e2"
    "fst (get_random_bytes 12 (const_rng 7)) \<noteq> fst (get_random_bytes 12 (const_rng 8))
       \<longrightarrow> e1 \<noteq> e2"
    by (elim exE conjE)
  then have "\<exists>e1 e2. fst (encrypt_value demo_gcm 0 (str_of ''a@b.com'') (const_rng 7)) = Inr e1
       \<and> fst (encrypt_value demo_gcm 0 (str_of ''a@b.com'') (const_rng 8)) = Inr e2
       \<and> e1 \<noteq> e2"
    using d by (intro exI [of _ e1] exI [of _ e2]) simp
  moreover have "encrypt_value demo_gcm 0 [0xD83D] (const_rng 7) = (Inl UnicodeEncodeError, const_rng 7)"
    using nonce_uniqueness [of "[0xD83D]" demo_gcm 0 "const_rng 7", THEN conjunct2] n
    by (rule mp)
  ultimately show ?thesis using s n d by (intro conjI) assumption+
qed

text \<open>
  For the string of the lone surrogate U+DBFF, two calls whose sources would have given
  distinct nonces return the same thing, the error, and no envelope; and such a call
  does not draw from the source, where a draw of 12 octets would have left octet 12 next.
\<close>

theorem nonce_uniqueness_counterexample:
  "fst (get_random_bytes 12 (const_rng 1)) \<noteq> fst (get_random_bytes 12 (const_rng 2)) \<and>
   fst (encrypt_value demo_gcm 0 [0xDBFF] (const_rng 1)) = Inl UnicodeEncodeError \<and>
   fst (encrypt_value demo_gcm 0 [0xDBFF] (const_rng 2)) = Inl UnicodeEncodeError \<and>
   snd (encrypt_value demo_gcm 0 [0xDBFF] count_rng) 0 = 0 \<and>
   snd (get_random_bytes 12 count_rng) 0 = 12"
proof -
  have "fst (get_random_bytes 12 (const_rng 1)) \<noteq> fst (get_random_bytes 12 (const_rng 2))"
    by (simp add: get_random_bytes_def const_rng_def) (rule exI [of _ 0], simp)
  then show ?thesis
    by (simp add: encrypt_value_def utf8_encode_cp_def snd_get_random_bytes count_rng_def)
qed

section \<open>The layout of an envelope\<close>

text \<open>
  C8. The text that \<open>encrypt_value\<close> returns decodes to the nonce, 12 octets drawn from
  the random source, then the tag, 16 octets, then the ciphertext, which has the length
  of the UTF-8 data; tag and ciphertext are those of \<open>encrypt_and_digest\<close> on the data
  under the key and that nonce. The whole is at least 28 octets. The empty string is
  encrypted without error, to a text that is not empty and decodes to nonce and tag alone.
\<close>

theorem envelope_layout:
  "(fst (encrypt_value A key p r) = Inr e \<longrightarrow>
      (\<exists>data nonce tag ciphertext.
          utf8_encode p = Inr data
        \<and> b64decode e = Inr (nonce @ tag @ ciphertext)
        \<and> nonce = fst (get_random_bytes 12 r) \<and> length nonce = 12
        \<and> (ciphertext, tag) = encrypt_and_digest A \<lparr>cipher_key = key, cipher_nonce = nonce\<rparr> data
        \<and> length tag = 16 \<and> length ciphertext = length data
        \<and> 28 \<le> length (nonce @ tag @ ciphertext))) \<and>
   (\<exists>e nonce tag. fst (encrypt_value A key [] r) = Inr e \<and> e \<noteq> []
        \<and> b64decode e = Inr (nonce @ tag) \<and> length nonce = 12 \<and> length tag = 16)"
proof (intro conjI impI)
  assume "fst (encrypt_value A key p r) = Inr e"
  then obtain data where d: "utf8_encode p = Inr data"
    and e: "e = map unat (b64encode (envelope A key (map r [0..<12]) data))"
    by (rule encrypt_value_Inr)
  let ?c = "\<lparr>cipher_key = key, cipher_nonce = map r [0..<12]\<rparr>"
  have "b64decode e = Inr (map r [0..<12] @ digest A ?c (gctr A ?c data) @ gctr A ?c data)"
    unfolding e by (simp add: b64decode_b64encode envelope_def Let_def del: upt_Suc)
  moreover have "(gctr A ?c data, digest A ?c (gctr A ?c data)) = encrypt_and_digest A ?c data"
    by (simp add: encrypt_and_digest_def Let_def)
  ultimately show "\<exists>data nonce tag ciphertext.
          utf8_encode p = Inr data
        \<and> b64decode e = Inr (nonce @ tag @ ciphertext)
        \<and> nonce = fst (get_random_bytes 12 r) \<and> length nonce = 12
        \<and> (ciphertext, tag) = encrypt_and_digest A \<lparr>cipher_key = key, cipher_nonce = nonce\<rparr> data
        \<and> length tag = 16 \<and> length ciphertext = length data
        \<and> 28 \<le> length (nonce @ tag @ ciphertext)"
    using d
    by (intro exI [of _ data] exI [of _ "map r [0..<12]"]
          exI [of _ "digest A ?c (gctr A ?c data)"] exI [of _ "gctr A ?c data"])
       (simp add: fst_get_random_bytes length_digest length_gctr del: upt_Suc)
next
  let ?c = "\<lparr>cipher_key = key, cipher_nonce = map r [0..<12]\<rparr>"
  let ?env = "envelope A key (map r [0..<12]) []"
  have e: "fst (encrypt_value A key [] r) = Inr (map unat (b64encode ?env))"
    by (simp add: encrypt_value_eq [of "[]" "[]"] del: upt_Suc)
  have env: "?env = map r [0..<12] @ digest A ?c []"
    by (simp add: envelope_def Let_def gctr_def del: upt_Suc)
  have "length ?env = 28" by (simp add: length_envelope)
  then have "?env \<noteq> []" by auto
  then have ne: "map unat (b64encode ?env) \<noteq> []" by (simp add: b64encode_ne)
  have "b64decode (map unat (b64encode ?env)) = Inr (map r [0..<12] @ digest A ?c [])"
    unfolding env [symmetric] by (rule b64decode_b64encode)
  with e ne show "\<exists>e nonce tag. fst (encrypt_value A key [] r) = Inr e \<and> e \<noteq> []
        \<and> b64decode e = Inr (nonce @ tag) \<and> length nonce = 12 \<and> length tag = 16"
    by (intro exI [of _ "map unat (b64encode ?env)"] exI [of _ "map r [0..<12]"]
          exI [of _ "digest A ?c []"]) (simp add: length_digest del: upt_Suc)
qed

theorem envelope_layout_witness:
  "fst (encrypt_value demo_gcm 0 (str_of ''a'') (const_rng 7))
     = Inr (str_of ''BwcHBwcHBwcHBwcHAAAAAAAAAAAAAAAAAAAAAW0='') \<and>
   (\<exists>data nonce tag ciphertext.
          utf8_encode (str_of ''a'') = Inr data
        \<and> b64decode (str_of ''BwcHBwcHBwcHBwcHAAAAAAAAAAAAAAAAAAAAAW0='')
            = Inr (nonce @ tag @ ciphertext)
        \<and> nonce = fst (get_random_bytes 12 (const_rng 7)) \<and> length nonce = 12
        \<and> (ciphertext, tag)
            = encrypt_and_digest demo_gcm \<lparr>cipher_key = 0, cipher_nonce = nonce\<rparr> data
        \<and> length tag = 16 \<and> length ciphertext = length data
        \<and> 28 \<le> length (nonce @ tag @ ciphertext))"
  using encrypt_value_a
    envelope_layout [of demo_gcm 0 "str_of ''a''" "const_rng 7"
      "str_of ''BwcHBwcHBwcHBwcHAAAAAAAAAAAAAAAAAAAAAW0=''", THEN conjunct1]
  by (intro conjI) (assumption, rule mp)

section \<open>Failures of \<open>decrypt_value\<close>\<close>




section \<open>Validation of the intake form\<close>

text \<open>
  C4. A POST is answered with \<open>"Invalid input"\<close> and status 400 exactly when, after
  \<open>strip()\<close> has taken the white space from both ends of each field (a field that is
  absent counts as empty), the full name is shorter than 2, or the email has no \<open>@\<close>, or
  the medical record number is shorter than 3, or the card number is shorter than 4. A
  rejected submission changes nothing. A submission that passes goes on to the
  statements that store it, and is answered with the redirect to \<open>/success\<close> when the
  server accepts every call and the four encrypted fields are strings that
  \<open>encrypt_value\<close> accepts.
\<close>

theorem intake_validation:
  "request_method req = POST \<longrightarrow>
     (let full_name = strip (form_get req ''full_name'' []);
          dob = strip (form_get req ''dob'' []);
          email = strip (form_get req ''email'' []);
          phone = strip (form_get req ''phone'' []);
          address = strip (form_get req ''address'' []);
          mrn = strip (form_get req ''mrn'' []);
          diagnosis = strip (form_get req ''diagnosis'' []);
          insurance = strip (form_get req ''insurance'' []);
          card_number = strip (form_get req ''card'' []);
          amount = strip (form_get req ''amount'' []);
          invalid = (length full_name < 2 \<or> 0x40 \<notin> set email \<or> length mrn < 3
                       \<or> length card_number < 4)
      in (fst (patient_form A key t req w) = Response (str_of ''Invalid input'') 400 \<longleftrightarrow> invalid)
       \<and> (invalid \<longrightarrow> snd (patient_form A key t req w) = w)
       \<and> (\<not> invalid \<longrightarrow>
            patient_form A key t req w =
              (case store_intake A key full_name dob email phone address mrn diagnosis insurance
                      card_number amount w of
                 (Inr u, w') \<Rightarrow> (Redirect ''/success'', w')
               | (Inl e, w') \<Rightarrow>
                   (Response (str_of ''Error while saving to DB: '' @ exn_str t e) 500, w')))
       \<and> (\<not> invalid \<and> faults (conn w) = [] \<and> scalar_values mrn \<and> scalar_values diagnosis
             \<and> scalar_values insurance \<and> scalar_values card_number \<longrightarrow>
            fst (patient_form A key t req w) = Redirect ''/success''))"
proof (intro impI)
  assume p: "request_method req = POST"
  define full_name where "full_name = strip (form_get req ''full_name'' [])"
  define dob where "dob = strip (form_get req ''dob'' [])"
  define email where "email = strip (form_get req ''email'' [])"
  define phone where "phone = strip (form_get req ''phone'' [])"
  define address where "address = strip (form_get req ''address'' [])"
  define mrn where "mrn = strip (form_get req ''mrn'' [])"
  define diagnosis where "diagnosis = strip (form_get req ''diagnosis'' [])"
  define insurance where "insurance = strip (form_get req ''insurance'' [])"
  define card_number where "card_number = strip (form_get req ''card'' [])"
  define amount where "amount = strip (form_get req ''amount'' [])"
  define invalid where "invalid \<longleftrightarrow> length full_name < 2 \<or> 0x40 \<notin> set email \<or> length mrn < 3
                       \<or> length card_number < 4"
  define S where "S = store_intake A key full_name dob email phone address mrn diagnosis insurance
                      card_number amount w"
  note defs = full_name_def dob_def email_def phone_def address_def mrn_def diagnosis_def
    insurance_def card_number_def amount_def
  have pf: "patient_form A key t req w =
      (if invalid then (Response (str_of ''Invalid input'') 400, w)
       else (case S of (Inr u, w') \<Rightarrow> (Redirect ''/success'', w')
             | (Inl e, w') \<Rightarrow> (Response (str_of ''Error while saving to DB: '' @ exn_str t e) 500, w')))"
    unfolding patient_form_def invalid_def S_def defs Let_def using p by simp
  have a: "fst (patient_form A key t req w) = Response (str_of ''Invalid input'') 400 \<longleftrightarrow> invalid"
    unfolding pf by (cases S) (auto split: sum.splits)
  have b: "invalid \<longrightarrow> snd (patient_form A key t req w) = w"
    unfolding pf by simp
  have c: "\<not> invalid \<longrightarrow> patient_form A key t req w =
      (case S of (Inr u, w') \<Rightarrow> (Redirect ''/success'', w')
       | (Inl e, w') \<Rightarrow> (Response (str_of ''Error while saving to DB: '' @ exn_str t e) 500, w'))"
    unfolding pf by simp
  have d: "\<not> invalid \<and> faults (conn w) = [] \<and> scalar_values mrn \<and> scalar_values diagnosis
             \<and> scalar_values insurance \<and> scalar_values card_number \<longrightarrow>
            fst (patient_form A key t req w) = Redirect ''/success''"
  proof
    assume h: "\<not> invalid \<and> faults (conn w) = [] \<and> scalar_values mrn \<and> scalar_values diagnosis
             \<and> scalar_values insurance \<and> scalar_values card_number"
    then obtain w' where "S = (Inr (), w')"
      unfolding S_def
      using store_intake_ok [of w mrn diagnosis insurance card_number A key full_name dob email
          phone address amount]
      by blast
    then show "fst (patient_form A key t req w) = Redirect ''/success''"
      unfolding pf using h by simp
  qed
  show "let full_name = strip (form_get req ''full_name'' []);
          dob = strip (form_get req ''dob'' []);
          email = strip (form_get req ''email'' []);
          phone = strip (form_get req ''phone'' []);
          address = strip (form_get req ''address'' []);
          mrn = strip (form_get req ''mrn'' []);
          diagnosis = strip (form_get req ''diagnosis'' []);
          insurance = strip (form_get req ''insurance'' []);
          card_number = strip (form_get req ''card'' []);
          amount = strip (form_get req ''amount'' []);
          invalid = (length full_name < 2 \<or> 0x40 \<notin> set email \<or> length mrn < 3
                       \<or> length card_number < 4)
      in (fst (patient_form A key t req w) = Response (str_of ''Invalid input'') 400 \<longleftrightarrow> invalid)
       \<and> (invalid \<longrightarrow> snd (patient_form A key t req w) = w)
       \<and> (\<not> invalid \<longrightarrow>
            patient_form A key t req w =
              (case store_intake A key full_name dob email phone address mrn diagnosis insurance
                      card_number amount w of
                 (Inr u, w') \<Rightarrow> (Redirect ''/success'', w')
               | (Inl e, w') \<Rightarrow>
                   (Response (str_of ''Error while saving to DB: '' @ exn_str t e) 500, w')))
       \<and> (\<not> invalid \<and> faults (conn w) = [] \<and> scalar_values mrn \<and> scalar_values diagnosis
             \<and> scalar_values insurance \<and> scalar_values card_number \<longrightarrow>
            fst (patient_form A key t req w) = Redirect ''/success'')"
    unfolding Let_def defs [symmetric] invalid_def [symmetric] S_def [symmetric]
    using a b c d by (intro conjI) assumption+
qed

theorem intake_validation_witness:
  "request_method (post [(''full_name'', ''A''), (''email'', ''a@b.com''), (''mrn'', ''abc''),
                 (''card'', ''1234'')]) = POST \<and>
   fst (patient_form demo_gcm 0 no_text
          (post [(''full_name'', ''A''), (''email'', ''a@b.com''), (''mrn'', ''abc''),
                 (''card'', ''1234'')]) (demo_world []))
     = Response (str_of ''Invalid input'') 400 \<and>
   fst (patient_form demo_gcm 0 no_text
          (post [(''full_name'', ''Al''), (''email'', ''a@b.com''), (''mrn'', ''abc''),
                 (''card'', ''1234'')]) (demo_world []))
     = Redirect ''/success''"
proof -
  let ?bad = "post [(''full_name'', ''A''), (''email'', ''a@b.com''), (''mrn'', ''abc''),
                 (''card'', ''1234'')]"
  let ?good = "post [(''full_name'', ''Al''), (''email'', ''a@b.com''), (''mrn'', ''abc''),
                 (''card'', ''1234'')]"
  have m: "request_method ?bad = POST" "request_method ?good = POST" by (simp_all add: post_def)
  note bad = intake_validation [of ?bad demo_gcm 0 no_text "demo_world []", unfolded Let_def,
      THEN mp, OF m(1), THEN conjunct1]
  note good = intake_validation [of ?good demo_gcm 0 no_text "demo_world []", unfolded Let_def,
      THEN mp, OF m(2), THEN conjunct2, THEN conjunct2, THEN conjunct2]
  have 1: "fst (patient_form demo_gcm 0 no_text ?bad (demo_world []))
     = Response (str_of ''Invalid input'') 400"
    using bad by (simp add: post_def form_get_def length_str_of)
  have 2: "fst (patient_form demo_gcm 0 no_text ?good (demo_world [])) = Redirect ''/success''"
    using good by (simp add: post_def form_get_def length_str_of demo_fields faults_demo_world)
  show ?thesis using m(1) 1 2 by (intro conjI) assumption+
qed

text \<open>
  The full name \<open>"A "\<close> has length 2, and the other three fields pass their rules, yet
  the submission is rejected: the rules apply to the stripped values.
\<close>

theorem intake_validation_counterexample:
  "length (str_of ''A '') = 2 \<and>
   0x40 \<in> set (str_of ''a@b.com'') \<and> length (str_of ''abc'') = 3 \<and> length (str_of ''1234'') = 4 \<and>
   patient_form demo_gcm 0 no_text
      (post [(''full_name'', ''A ''), (''email'', ''a@b.com''), (''mrn'', ''abc''),
             (''card'', ''1234'')]) (demo_world [])
     = (Response (str_of ''Invalid input'') 400, demo_world [])"
  by (simp add: patient_form_def Let_def post_def form_get_def length_str_of demo_fields)

section \<open>What the user sees of a failure\<close>

text \<open>
  C9. A submission that breaks a rule of the validation is answered with the one text
  \<open>"Invalid input"\<close> and status 400, whichever rule it is. A failure of a statement that
  stores the submission, of the database or of the codec, is answered with status 500
  and the text \<open>"Error while saving to DB: "\<close> followed by the text of the exception:
  the message of the server when the database refuses a call, and the text of
  \<open>UnicodeEncodeError\<close> when the medical record number cannot be encoded.
\<close>

theorem intake_errors:
  "request_method req = POST \<longrightarrow>
     (let full_name = strip (form_get req ''full_name'' []);
          dob = strip (form_get req ''dob'' []);
          email = strip (form_get req ''email'' []);
          phone = strip (form_get req ''phone'' []);
          address = strip (form_get req ''address'' []);
          mrn = strip (form_get req ''mrn'' []);
          diagnosis = strip (form_get req ''diagnosis'' []);
          insurance = strip (form_get req ''insurance'' []);
          card_number = strip (form_get req ''card'' []);
          amount = strip (form_get req ''amount'' []);
          invalid = (length full_name < 2 \<or> 0x40 \<notin> set email \<or> length mrn < 3
                       \<or> length card_number < 4)
      in (invalid \<longrightarrow>
            patient_form A key t req w = (Response (str_of ''Invalid input'') 400, w))
       \<and> (\<forall>e. \<not> invalid
             \<and> fst (store_intake A key full_name dob email phone address mrn diagnosis insurance
                      card_number amount w) = Inl e \<longrightarrow>
            fst (patient_form A key t req w)
              = Response (str_of ''Error while saving to DB: '' @ exn_str t e) 500)
       \<and> (\<forall>m fs. \<not> invalid \<and> faults (conn w) = Some m # fs \<longrightarrow>
            fst (patient_form A key t req w)
              = Response (str_of ''Error while saving to DB: '' @ m) 500)
       \<and> (\<not> invalid \<and> faults (conn w) = [] \<and> \<not> scalar_values mrn \<longrightarrow>
            fst (patient_form A key t req w)
              = Response (str_of ''Error while saving to DB: '' @ t UnicodeEncodeError) 500))"
proof (intro impI)
  assume p: "request_method req = POST"
  define full_name where "full_name = strip (form_get req ''full_name'' [])"
  define dob where "dob = strip (form_get req ''dob'' [])"
  define email where "email = strip (form_get req ''email'' [])"
  define phone where "phone = strip (form_get req ''phone'' [])"
  define address where "address = strip (form_get req ''address'' [])"
  define mrn where "mrn = strip (form_get req ''mrn'' [])"
  define diagnosis where "diagnosis = strip (form_get req ''diagnosis'' [])"
  define insurance where "insurance = strip (form_get req ''insurance'' [])"
  define card_number where "card_number = strip (form_get req ''card'' [])"
  define amount where "amount = strip (form_get req ''amount'' [])"
  define invalid where "invalid \<longleftrightarrow> length full_name < 2 \<or> 0x40 \<notin> set email \<or> length mrn < 3
                       \<or> length card_number < 4"
  define S where "S = store_intake A key full_name dob email phone address mrn diagnosis insurance
                      card_number amount w"
  note defs = full_name_def dob_def email_def phone_def address_def mrn_def diagnosis_def
    insurance_def card_number_def amount_def
  have pf: "patient_form A key t req w =
      (if invalid then (Response (str_of ''Invalid input'') 400, w)
       else (case S of (Inr u, w') \<Rightarrow> (Redirect ''/success'', w')
             | (Inl e, w') \<Rightarrow> (Response (str_of ''Error while saving to DB: '' @ exn_str t e) 500, w')))"
    unfolding patient_form_def invalid_def S_def defs Let_def using p by simp
  have a: "invalid \<longrightarrow> patient_form A key t req w = (Response (str_of ''Invalid input'') 400, w)"
    unfolding pf by simp
  have b: "\<forall>e. \<not> invalid \<and> fst S = Inl e \<longrightarrow>
      fst (patient_form A key t req w)
        = Response (str_of ''Error while saving to DB: '' @ exn_str t e) 500"
    unfolding pf by (cases S) auto
  have c: "\<forall>m fs. \<not> invalid \<and> faults (conn w) = Some m # fs \<longrightarrow>
      fst (patient_form A key t req w) = Response (str_of ''Error while saving to DB: '' @ m) 500"
  proof (intro allI impI)
    fix m fs assume h: "\<not> invalid \<and> faults (conn w) = Some m # fs"
    then have "fst S = Inl (DatabaseError m)" unfolding S_def by (simp add: store_intake_fault)
    with b h show "fst (patient_form A key t req w)
        = Response (str_of ''Error while saving to DB: '' @ m) 500"
      by fastforce
  qed
  have d: "\<not> invalid \<and> faults (conn w) = [] \<and> \<not> scalar_values mrn \<longrightarrow>
      fst (patient_form A key t req w)
        = Response (str_of ''Error while saving to DB: '' @ t UnicodeEncodeError) 500"
  proof
    assume h: "\<not> invalid \<and> faults (conn w) = [] \<and> \<not> scalar_values mrn"
    then have "fst S = Inl (CodecError UnicodeEncodeError)"
      unfolding S_def by (simp add: store_intake_not_scalar)
    with b h show "fst (patient_form A key t req w)
        = Response (str_of ''Error while saving to DB: '' @ t UnicodeEncodeError) 500"
      by fastforce
  qed
  show "let full_name = strip (form_get req ''full_name'' []);
          dob = strip (form_get req ''dob'' []);
          email = strip (form_get req ''email'' []);
          phone = strip (form_get req ''phone'' []);
          address = strip (form_get req ''address'' []);
          mrn = strip (form_get req ''mrn'' []);
          diagnosis = strip (form_get req ''diagnosis'' []);
          insurance = strip (form_get req ''insurance'' []);
          card_number = strip (form_get req ''card'' []);
          amount = strip (form_get req ''amount'' []);
          invalid = (length full_name < 2 \<or> 0x40 \<notin> set email \<or> length mrn < 3
                       \<or> length card_number < 4)
      in (invalid \<longrightarrow>
            patient_form A key t req w = (Response (str_of ''Invalid input'') 400, w))
       \<and> (\<forall>e. \<not> invalid
             \<and> fst (store_intake A key full_name dob email phone address mrn diagnosis insurance
                      card_number amount w) = Inl e \<longrightarrow>
            fst (patient_form A key t req w)
              = Response (str_of ''Error while saving to DB: '' @ exn_str t e) 500)
       \<and> (\<forall>m fs. \<not> invalid \<and> faults (conn w) = Some m # fs \<longrightarrow>
            fst (patient_form A key t req w)
              = Response (str_of ''Error while saving to DB: '' @ m) 500)
       \<and> (\<not> invalid \<and> faults (conn w) = [] \<and> \<not> scalar_values mrn \<longrightarrow>
            fst (patient_form A key t req w)
              = Response (str_of ''Error while saving to DB: '' @ t UnicodeEncodeError) 500)"
    unfolding Let_def defs [symmetric] invalid_def [symmetric] S_def [symmetric]
    using a b c d by (intro conjI) assumption+
qed

theorem intake_errors_witness:
  "request_method (post [(''full_name'', ''Al''), (''email'', ''a@b.com''), (''mrn'', ''ab''),
                 (''card'', ''1234'')]) = POST \<and>
   patient_form demo_gcm 0 no_text
      (post [(''full_name'', ''Al''), (''email'', ''a@b.com''), (''mrn'', ''ab''),
             (''card'', ''1234'')]) (demo_world [])
     = (Response (str_of ''Invalid input'') 400, demo_world []) \<and>
   fst (patient_form demo_gcm 0 no_text
      (post [(''full_name'', ''Al''), (''email'', ''a@b.com''), (''mrn'', ''abc''),
             (''card'', ''1234'')]) (demo_world [Some (str_of ''2003: no connection'')]))
     = Response (str_of ''Error while saving to DB: '' @ str_of ''2003: no connection'') 500"
proof -
  let ?bad = "post [(''full_name'', ''Al''), (''email'', ''a@b.com''), (''mrn'', ''ab''),
                 (''card'', ''1234'')]"
  let ?good = "post [(''full_name'', ''Al''), (''email'', ''a@b.com''), (''mrn'', ''abc''),
                 (''card'', ''1234'')]"
  have m: "request_method ?bad = POST" "request_method ?good = POST" by (simp_all add: post_def)
  note bad = intake_errors [of ?bad demo_gcm 0 no_text "demo_world []", unfolded Let_def,
      THEN mp, OF m(1), THEN conjunct1]
  note good = intake_errors [of ?good demo_gcm 0 no_text
        "demo_world [Some (str_of ''2003: no connection'')]", unfolded Let_def,
      THEN mp, OF m(2), THEN conjunct2, THEN conjunct2, THEN conjunct1, THEN spec, THEN spec,
      of "str_of ''2003: no connection''" "[]"]
  have 1: "patient_form demo_gcm 0 no_text ?bad (demo_world [])
     = (Response (str_of ''Invalid input'') 400, demo_world [])"
    using bad by (simp add: post_def form_get_def length_str_of demo_fields)
  have 2: "fst (patient_form demo_gcm 0 no_text ?good
        (demo_world [Some (str_of ''2003: no connection'')]))
     = Response (str_of ''Error while saving to DB: '' @ str_of ''2003: no connection'') 500"
    using good by (simp add: post_def form_get_def length_str_of demo_fields faults_demo_world)
  show ?thesis using m(1) 1 2 by (intro conjI) assumption+
qed

text \<open>
  A name that is too short and a card number that is too short get the same answer,
  which names neither rule; and the message of the server for the third call, the
  insertion into \<open>patients\<close>, is in the body of the answer as it came.
\<close>

theorem intake_errors_counterexample:
  "patient_form demo_gcm 0 no_text
      (post [(''full_name'', ''A''), (''email'', ''a@b.com''), (''mrn'', ''abc''),
             (''card'', ''1234'')]) (demo_world [])
     = (Response (str_of ''Invalid input'') 400, demo_world []) \<and>
   patient_form demo_gcm 0 no_text
      (post [(''full_name'', ''Al''), (''email'', ''a@b.com''), (''mrn'', ''abc''),
             (''card'', ''12'')]) (demo_world [])
     = (Response (str_of ''Invalid input'') 400, demo_world []) \<and>
   fst (patient_form demo_gcm 0 no_text
      (post [(''full_name'', ''Al''), (''email'', ''a@b.com''), (''mrn'', ''abc''),
             (''card'', ''1234'')])
      (demo_world [None, None,
         Some (str_of ''1062 (23000): Duplicate entry a@b.com for key patients.email'')]))
     = Response (str_of ''Error while saving to DB: 1062 (23000): Duplicate entry a@b.com for key patients.email'') 500"
  by (simp add: patient_form_def Let_def post_def form_get_def length_str_of demo_fields
        store_intake_def and_then_def get_db_conn_def cursor_def server_call_def
        execute_insert_def after_insert_def demo_world_def empty_connection_def)
     (simp add: str_of_def)

section \<open>What is stored of a patient\<close>

text \<open>
  C1. A patient whose four sensitive fields are strings that \<open>encrypt_value\<close> accepts,
  inserted by \<open>insert_patient_data\<close> on a connection that the server serves and whose
  \<open>Patient\<close> keys are those the counter gave, is read back by \<open>get_patient_data\<close> under
  the returned key with exactly the phone number, email, SSN and state id that were
  given, and the server holds for these four columns octets that are not the UTF-8
  octets of the plaintext; the names, the date of birth and the gender are stored as
  given. The intake form, when the server serves it, stores the full name, the date of
  birth, the email, the phone number, the address and the amount as they were submitted,
  and envelopes that decrypt to the submitted values for the medical record number, the
  diagnosis, the insurance policy and the card number.
\<close>

theorem sensitive_columns:
  "(faults (conn w) = [] \<and> scalar_values (phone_number pd) \<and> scalar_values (email pd)
      \<and> scalar_values (ssn pd) \<and> scalar_values (state_id pd)
      \<and> (\<forall>y \<in> set (working (conn w) ''Patient''). fst y \<le> counters (conn w) ''Patient'') \<longrightarrow>
    (\<exists>patient_id w' b1 b2 b3 b4 d1 d2 d3 d4.
        insert_patient_data A key pd w = (Inr patient_id, w')
      \<and> utf8_encode (phone_number pd) = Inr d1 \<and> utf8_encode (email pd) = Inr d2
      \<and> utf8_encode (ssn pd) = Inr d3 \<and> utf8_encode (state_id pd) = Inr d4
      \<and> execute_select ''Patient'' (int patient_id) w' =
          (Inr (Some [Num (int patient_id), Text (first_name pd), Text (last_name pd),
                      Text (dob pd), Text (gender pd), Blob b1, Blob b2, Blob b3, Blob b4,
                      (case primary_doctor_id pd of None \<Rightarrow> Null | Some n \<Rightarrow> Num n)]), w')
      \<and> b1 \<noteq> d1 \<and> b2 \<noteq> d2 \<and> b3 \<noteq> d3 \<and> b4 \<noteq> d4
      \<and> get_patient_data A key (int patient_id) w' =
          (Inr (Some [(''patient_id'', Num (int patient_id)),
                 (''first_name'', Text (first_name pd)),
                 (''last_name'', Text (last_name pd)), (''dob'', Text (dob pd)),
                 (''gender'', Text (gender pd)),
                 (''phone_number'', Text (phone_number pd)), (''email'', Text (email pd)),
                 (''ssn'', Text (ssn pd)), (''state_id'', Text (state_id pd)),
                 (''primary_doctor_id'',
                    case primary_doctor_id pd of None \<Rightarrow> Null | Some n \<Rightarrow> Num n)]), w'))) \<and>
   (faults (conn v) = [] \<and> scalar_values mrn \<and> scalar_values diagnosis
      \<and> scalar_values insurance \<and> scalar_values card_number \<longrightarrow>
    (\<exists>mrn_enc diagnosis_enc insurance_policy_enc card_number_enc v'.
        store_intake A key full_name date_of_birth email_address phone address mrn diagnosis
          insurance card_number amount v = (Inr (), v')
      \<and> decrypt_value A key mrn_enc = Inr mrn
      \<and> decrypt_value A key diagnosis_enc = Inr diagnosis
      \<and> decrypt_value A key insurance_policy_enc = Inr insurance
      \<and> decrypt_value A key card_number_enc = Inr card_number
      \<and> committed (conn v') =
          (let db = committed (conn v);
               patient_id = Suc (counters (conn v) ''patients'');
               billing_id = Suc (counters (conn v) ''billing'')
           in db(''patients'' := db ''patients'' @
                    [(patient_id, [Text full_name, Text date_of_birth, Text email_address,
                                   Text phone, Text address])],
                 ''medical_records'' := db ''medical_records'' @
                    [(Suc (counters (conn v) ''medical_records''),
                      [Num (int patient_id), Text mrn_enc, Text diagnosis_enc])],
                 ''insurance'' := db ''insurance'' @
                    [(Suc (counters (conn v) ''insurance''),
                      [Num (int patient_id), Text insurance_policy_enc, Text (str_of ''Unknown'')])],
                 ''billing'' := db ''billing'' @
                    [(billing_id, [Num (int patient_id), Text amount, Text (str_of ''PENDING'')])],
                 ''payments'' := db ''payments'' @
                    [(Suc (counters (conn v) ''payments''),
                      [Num (int billing_id), Text card_number_enc])]))))"
proof (intro conjI impI)
  assume h: "faults (conn w) = [] \<and> scalar_values (phone_number pd) \<and> scalar_values (email pd)
      \<and> scalar_values (ssn pd) \<and> scalar_values (state_id pd)
      \<and> (\<forall>y \<in> set (working (conn w) ''Patient''). fst y \<le> counters (conn w) ''Patient'')"
  then have f: "faults (conn w) = []" by simp
  obtain d1 where d1: "utf8_encode (phone_number pd) = Inr d1"
    using h utf8_encode_scalar by blast
  obtain d2 where d2: "utf8_encode (email pd) = Inr d2"
    using h utf8_encode_scalar by blast
  obtain d3 where d3: "utf8_encode (ssn pd) = Inr d3"
    using h utf8_encode_scalar by blast
  obtain d4 where d4: "utf8_encode (state_id pd) = Inr d4"
    using h utf8_encode_scalar by blast
  let ?k = "Suc (counters (conn w) ''Patient'')"
  let ?row = "stored_patient A key (rand w) pd d1 d2 d3 d4"
  obtain w' where ins: "insert_patient_data A key pd w = (Inr ?k, w')"
    and f': "faults (conn w') = []"
    and t: "working (conn w') = (working (conn w))(''Patient'' := working (conn w) ''Patient'' @
          [(?k, ?row)])"
    using insert_patient_data_ok [OF f d1 d2 d3 d4, of A key] by blast
  have t': "working (conn w') ''Patient'' = working (conn w) ''Patient'' @ [(?k, ?row)]"
    by (simp add: t)
  have n: "\<forall>y \<in> set (working (conn w) ''Patient''). fst y \<noteq> ?k"
    using h by fastforce
  note sel = execute_select_ok [OF f' t' n, unfolded fetched_patient]
  note get = get_patient_data_ok [OF f' d1 d2 d3 d4 t' n]
  show "\<exists>patient_id w' b1 b2 b3 b4 d1 d2 d3 d4.
        insert_patient_data A key pd w = (Inr patient_id, w')
      \<and> utf8_encode (phone_number pd) = Inr d1 \<and> utf8_encode (email pd) = Inr d2
      \<and> utf8_encode (ssn pd) = Inr d3 \<and> utf8_encode (state_id pd) = Inr d4
      \<and> execute_select ''Patient'' (int patient_id) w' =
          (Inr (Some [Num (int patient_id), Text (first_name pd), Text (last_name pd),
                      Text (dob pd), Text (gender pd), Blob b1, Blob b2, Blob b3, Blob b4,
                      (case primary_doctor_id pd of None \<Rightarrow> Null | Some n \<Rightarrow> Num n)]), w')
      \<and> b1 \<noteq> d1 \<and> b2 \<noteq> d2 \<and> b3 \<noteq> d3 \<and> b4 \<noteq> d4
      \<and> get_patient_data A key (int patient_id) w' =
          (Inr (Some [(''patient_id'', Num (int patient_id)),
                 (''first_name'', Text (first_name pd)),
                 (''last_name'', Text (last_name pd)), (''dob'', Text (dob pd)),
                 (''gender'', Text (gender pd)),
                 (''phone_number'', Text (phone_number pd)), (''email'', Text (email pd)),
                 (''ssn'', Text (ssn pd)), (''state_id'', Text (state_id pd)),
                 (''primary_doctor_id'',
                    case primary_doctor_id pd of None \<Rightarrow> Null | Some n \<Rightarrow> Num n)]), w')"
    apply (rule exI [of _ ?k])
    apply (rule exI [of _ w'])
    apply (rule exI [of _ "b64encode (envelope A key (map (rand w) [0..<12]) d1)"])
    apply (rule exI [of _ "b64encode (envelope A key (map (\<lambda>i. rand w (i + 12)) [0..<12]) d2)"])
    apply (rule exI [of _ "b64encode (envelope A key (map (\<lambda>i. rand w (i + 12 + 12)) [0..<12]) d3)"])
    apply (rule exI [of _ "b64encode (envelope A key (map (\<lambda>i. rand w (i + 12 + 12 + 12)) [0..<12]) d4)"])
    apply (rule exI [of _ d1])
    apply (rule exI [of _ d2])
    apply (rule exI [of _ d3])
    apply (rule exI [of _ d4])
    apply (intro conjI)
                apply (rule ins)
               apply (rule d1)
              apply (rule d2)
             apply (rule d3)
            apply (rule d4)
           apply (rule sel)
          apply (rule b64encode_envelope_ne)
         apply (rule b64encode_envelope_ne)
        apply (rule b64encode_envelope_ne)
       apply (rule b64encode_envelope_ne)
    apply (rule get)
    done
next
  assume "faults (conn v) = [] \<and> scalar_values mrn \<and> scalar_values diagnosis
      \<and> scalar_values insurance \<and> scalar_values card_number"
  then show "\<exists>mrn_enc diagnosis_enc insurance_policy_enc card_number_enc v'.
        store_intake A key full_name date_of_birth email_address phone address mrn diagnosis
          insurance card_number amount v = (Inr (), v')
      \<and> decrypt_value A key mrn_enc = Inr mrn
      \<and> decrypt_value A key diagnosis_enc = Inr diagnosis
      \<and> decrypt_value A key insurance_policy_enc = Inr insurance
      \<and> decrypt_value A key card_number_enc = Inr card_number
      \<and> committed (conn v') =
          (let db = committed (conn v);
               patient_id = Suc (counters (conn v) ''patients'');
               billing_id = Suc (counters (conn v) ''billing'')
           in db(''patients'' := db ''patients'' @
                    [(patient_id, [Text full_name, Text date_of_birth, Text email_address,
                                   Text phone, Text address])],
                 ''medical_records'' := db ''medical_records'' @
                    [(Suc (counters (conn v) ''medical_records''),
                      [Num (int patient_id), Text mrn_enc, Text diagnosis_enc])],
                 ''insurance'' := db ''insurance'' @
                    [(Suc (counters (conn v) ''insurance''),
                      [Num (int patient_id), Text insurance_policy_enc, Text (str_of ''Unknown'')])],
                 ''billing'' := db ''billing'' @
                    [(billing_id, [Num (int patient_id), Text amount, Text (str_of ''PENDING'')])],
                 ''payments'' := db ''payments'' @
                    [(Suc (counters (conn v) ''payments''),
                      [Num (int billing_id), Text card_number_enc])]))"
    by (intro store_intake_ok) simp_all
qed

theorem sensitive_columns_witness:
  "faults (conn (demo_world [])) = [] \<and>
   scalar_values (phone_number demo_patient) \<and> scalar_values (email demo_patient) \<and>
   scalar_values (ssn demo_patient) \<and> scalar_values (state_id demo_patient) \<and>
   (\<exists>patient_id w'.
      insert_patient_data demo_gcm 0 demo_patient (demo_world []) = (Inr patient_id, w') \<and>
      get_patient_data demo_gcm 0 (int patient_id) w' =
        (Inr (Some [(''patient_id'', Num (int patient_id)),
                 (''first_name'', Text (str_of ''Ann'')),
                 (''last_name'', Text (str_of ''Lee'')), (''dob'', Text (str_of ''1992-08-10'')),
                 (''gender'', Text (str_of ''F'')),
                 (''phone_number'', Text (str_of ''555-0101'')),
                 (''email'', Text (str_of ''a@b.com'')),
                 (''ssn'', Text (str_of ''123-45-6789'')), (''state_id'', Text (str_of ''TX123'')),
                 (''primary_doctor_id'', Null)]), w'))"
proof -
  have h: "faults (conn (demo_world [])) = [] \<and>
     scalar_values (phone_number demo_patient) \<and> scalar_values (email demo_patient) \<and>
     scalar_values (ssn demo_patient) \<and> scalar_values (state_id demo_patient) \<and>
     (\<forall>y \<in> set (working (conn (demo_world [])) ''Patient'').
         fst y \<le> counters (conn (demo_world [])) ''Patient'')"
    by (simp add: faults_demo_world demo_patient_scalar demo_world_empty)
  from sensitive_columns [of "demo_world []" demo_patient demo_gcm 0, THEN conjunct1, THEN mp, OF h]
  obtain patient_id w' where
    "insert_patient_data demo_gcm 0 demo_patient (demo_world []) = (Inr patient_id, w')"
    "get_patient_data demo_gcm 0 (int patient_id) w' =
          (Inr (Some [(''patient_id'', Num (int patient_id)),
                 (''first_name'', Text (first_name demo_patient)),
                 (''last_name'', Text (last_name demo_patient)), (''dob'', Text (dob demo_patient)),
                 (''gender'', Text (gender demo_patient)),
                 (''phone_number'', Text (phone_number demo_patient)),
                 (''email'', Text (email demo_patient)),
                 (''ssn'', Text (ssn demo_patient)), (''state_id'', Text (state_id demo_patient)),
                 (''primary_doctor_id'',
                    case primary_doctor_id demo_patient of None \<Rightarrow> Null | Some n \<Rightarrow> Num n)]), w')"
    by (elim exE conjE)
  then have "\<exists>patient_id w'.
      insert_patient_data demo_gcm 0 demo_patient (demo_world []) = (Inr patient_id, w') \<and>
      get_patient_data demo_gcm 0 (int patient_id) w' =
        (Inr (Some [(''patient_id'', Num (int patient_id)),
                 (''first_name'', Text (str_of ''Ann'')),
                 (''last_name'', Text (str_of ''Lee'')), (''dob'', Text (str_of ''1992-08-10'')),
                 (''gender'', Text (str_of ''F'')),
                 (''phone_number'', Text (str_of ''555-0101'')),
                 (''email'', Text (str_of ''a@b.com'')),
                 (''ssn'', Text (str_of ''123-45-6789'')), (''state_id'', Text (str_of ''TX123'')),
                 (''primary_doctor_id'', Null)]), w')"
    by (intro exI [of _ patient_id] exI [of _ w']) (simp add: demo_patient_def)
  with h show ?thesis by simp
qed

text \<open>
  After an accepted submission the row of \<open>patients\<close> has the name and the email as the
  form sent them.
\<close>

theorem intake_plaintext_counterexample:
  "fst (patient_form demo_gcm 0 no_text
          (post [(''full_name'', ''Al''), (''email'', ''a@b.com''), (''mrn'', ''abc''),
                 (''card'', ''1234'')]) (demo_world [])) = Redirect ''/success'' \<and>
   committed (conn (snd (patient_form demo_gcm 0 no_text
          (post [(''full_name'', ''Al''), (''email'', ''a@b.com''), (''mrn'', ''abc''),
                 (''card'', ''1234'')]) (demo_world [])))) ''patients''
     = [(1, [Text (str_of ''Al''), Text [], Text (str_of ''a@b.com''), Text [], Text []])]"
proof -
  let ?req = "post [(''full_name'', ''Al''), (''email'', ''a@b.com''), (''mrn'', ''abc''),
                 (''card'', ''1234'')]"
  obtain w' where s: "store_intake demo_gcm 0 (str_of ''Al'') [] (str_of ''a@b.com'') [] []
        (str_of ''abc'') [] [] (str_of ''1234'') [] (demo_world []) = (Inr (), w')"
    and c: "committed (conn w') ''patients''
        = [(1, [Text (str_of ''Al''), Text [], Text (str_of ''a@b.com''), Text [], Text []])]"
    using store_intake_ok [of "demo_world []" "str_of ''abc''" "[]" "[]" "str_of ''1234''"
        demo_gcm 0 "str_of ''Al''" "[]" "str_of ''a@b.com''" "[]" "[]" "[]"]
    by (auto simp: faults_demo_world demo_fields demo_world_empty Let_def)
  have "patient_form demo_gcm 0 no_text ?req (demo_world []) = (Redirect ''/success'', w')"
    by (simp add: patient_form_def Let_def post_def form_get_def length_str_of demo_fields s)
  then show ?thesis using c by simp
qed

section \<open>Commits inside a unit\<close>

text \<open>
  C5. \<open>insert_patient_data\<close> commits the row of \<open>Patient\<close> itself. When the statement
  that follows it in \<open>insert_comprehensive_dummy_data\<close>, the insertion of the row of
  \<open>Patient_Sensitive\<close>, raises, the \<open>rollback\<close> of the \<open>except\<close> branch goes through and
  the patient stays committed, without its sensitive row.
\<close>

theorem patient_row_survives_rollback:
  "(let w0 = demo_world [None, None, None, None, Some (str_of ''2013: Lost connection'')];
        (r1, w1) = insert_patient_data demo_gcm 0 demo_patient w0;
        (r2, w2) = execute_insert ''Patient_Sensitive''
                     [Num 1, lit ''bXJu'', lit ''YWRkcg=='', lit ''aW5z'', lit ''3456''] w1;
        (r3, w3) = rollback w2
    in r1 = Inr 1 \<and> r2 = Inl (DatabaseError (str_of ''2013: Lost connection'')) \<and> r3 = Inr ()
     \<and> map fst (committed (conn w3) ''Patient'') = [1]
     \<and> committed (conn w3) ''Patient_Sensitive'' = []
     \<and> working (conn w3) = committed (conn w3))"
proof -
  let ?w0 = "demo_world [None, None, None, None, Some (str_of ''2013: Lost connection'')]"
  obtain d1 d2 d3 d4 where d: "utf8_encode (phone_number demo_patient) = Inr d1"
      "utf8_encode (email demo_patient) = Inr d2" "utf8_encode (ssn demo_patient) = Inr d3"
      "utf8_encode (state_id demo_patient) = Inr d4"
    using demo_patient_scalar [THEN utf8_encode_scalar] by blast
  have f: "faults (conn ?w0) = None # None # None # None # [Some (str_of ''2013: Lost connection'')]"
    by (simp add: faults_demo_world)
  obtain w1 where i: "insert_patient_data demo_gcm 0 demo_patient ?w0 = (Inr 1, w1)"
    and f1: "faults (conn w1) = [Some (str_of ''2013: Lost connection'')]"
    and t1: "working (conn w1) = (working (conn ?w0))(''Patient'' := working (conn ?w0) ''Patient'' @
          [(1, stored_patient demo_gcm 0 (rand ?w0) demo_patient d1 d2 d3 d4)])"
    and c1: "committed (conn w1) = working (conn w1)"
    using insert_patient_data_commits [OF f d, of demo_gcm 0]
    by (auto simp: demo_world_empty)
  show ?thesis
    unfolding Let_def i
    by (simp add: execute_insert_def rollback_def and_then_def server_call_def f1 c1 t1
          demo_world_empty)
qed

section \<open>The snapshot of an audit row\<close>

text \<open>
  C6. An \<open>UPDATE\<close> of \<open>is_default\<close> on a row of \<open>Payment_Methods\<close> whose \<open>last4\<close> is \<open>NULL\<close>
  writes one row into \<open>Audit_Log\<close>, with the key of the row, and its \<open>old_data\<close> and
  \<open>new_data\<close> are \<open>NULL\<close>: they show neither the type nor the old and new \<open>is_default\<close>.
\<close>

theorem audit_null_snapshot:
  "(let (r1, w1) = execute_insert ''Payment_Methods''
                     [Num 1, lit ''CARD'', Null, lit ''ZW52'', Num 1] (demo_world []);
        (r2, w2) = execute_update ''Payment_Methods'' 1 [(5, Num 0)] w1
    in r1 = Inr 1 \<and> r2 = Inr ()
     \<and> working (conn w2) ''Payment_Methods''
         = [(1, [Num 1, lit ''CARD'', Null, lit ''ZW52'', Num 0])]
     \<and> working (conn w2) ''Audit_Log''
         = [(1, [lit ''Payment_Methods'', Num 1, lit ''UPDATE'', lit ''SYSTEM'', Null, Null])])"
  by (simp add: execute_insert_def execute_update_def and_then_def server_call_def
        after_insert_def before_update_def audit_def trg_paymethod_before_update_def
        CONCAT_def col_def set_cols_def demo_world_def empty_connection_def Let_def lit_def)

end
